theory Spec2Isabelle
  imports Complex_Main "HOL-Library.List_Lexorder" "HOL-Library.Char_ord"
    "HOL-Library.Product_Lexorder" "HOL-Library.AList"
begin

section \<open>Time values\<close>

text \<open>
  The metrics code works on Go's \<^verbatim>\<open>time.Time\<close>. A value is an instant (seconds since
  1970-01-01T00:00:00Z and a nanosecond part in \<open>[0, 10^9)\<close>) together with the
  Location it is displayed in. A Location is modelled as a fixed offset in seconds east
  of UTC (UTC is offset 0): the timestamps the GitHub client decodes are of that kind.
  Seconds are unbounded integers here, Go keeps them in 64 bits. A \<^verbatim>\<open>float64\<close> is
  modelled as an exact \<^typ>\<open>real\<close>: rounding, infinities and NaN are outside the model.
\<close>

record Time =
  unix_sec :: int
  nsec :: int
  loc_offset :: int

text \<open>The zero \<^verbatim>\<open>time.Time\<close> is 0001-01-01T00:00:00 UTC.\<close>

definition unixToYear1 :: int where
  "unixToYear1 = 62135596800"

definition zeroTime :: Time where
  "zeroTime = \<lparr>unix_sec = - unixToYear1, nsec = 0, loc_offset = 0\<rparr>"

definition Time_IsZero :: "Time \<Rightarrow> bool" where
  "Time_IsZero t = (unix_sec t = - unixToYear1 \<and> nsec t = 0)"

definition Time_Before :: "Time \<Rightarrow> Time \<Rightarrow> bool" where
  "Time_Before t u = (unix_sec t < unix_sec u \<or> (unix_sec t = unix_sec u \<and> nsec t < nsec u))"

text \<open>
  \<^verbatim>\<open>t.Sub(u)\<close> is a Duration: a signed 64-bit count of nanoseconds, saturating at the
  smallest and largest Duration when the difference does not fit.
\<close>

definition minDuration :: int where
  "minDuration = - (2 ^ 63)"

definition maxDuration :: int where
  "maxDuration = 2 ^ 63 - 1"

definition Time_Sub :: "Time \<Rightarrow> Time \<Rightarrow> int" where
  "Time_Sub t u =
     (let d = (unix_sec t - unix_sec u) * 1000000000 + (nsec t - nsec u)
      in if minDuration \<le> d \<and> d \<le> maxDuration then d
         else if Time_Before t u then minDuration
         else maxDuration)"

definition Duration_Hours :: "int \<Rightarrow> real" where
  "Duration_Hours d = real_of_int d / 3600000000000"

subsection \<open>The proleptic Gregorian calendar of the time package\<close>

text \<open>
  Wall-clock seconds since 0001-01-01T00:00:00 in the value's own Location. Day 0 of
  that count is a Monday and the first day of a 400-year cycle.
\<close>

definition Time_abs :: "Time \<Rightarrow> int" where
  "Time_abs t = unix_sec t + loc_offset t + unixToYear1"

definition isLeap :: "int \<Rightarrow> bool" where
  "isLeap year = (year mod 4 = 0 \<and> (year mod 100 \<noteq> 0 \<or> year mod 400 = 0))"

definition daysBefore :: "int list" where
  "daysBefore = [0, 31, 59, 90, 120, 151, 181, 212, 243, 273, 304, 334, 365]"

text \<open>Days from 0001-01-01 to the first of January of \<open>year\<close>.\<close>

definition daysSinceEpoch :: "int \<Rightarrow> int" where
  "daysSinceEpoch year =
     (let y = year - 1;
          n400 = y div 400;
          y1 = y - 400 * n400;
          n100 = y1 div 100;
          y2 = y1 - 100 * n100;
          n4 = y2 div 4;
          y3 = y2 - 4 * n4
      in 146097 * n400 + 36524 * n100 + 1461 * n4 + 365 * y3)"

text \<open>The year of a day count, and the day within that year (0 for the first of January).\<close>

definition absYearDay :: "int \<Rightarrow> int \<times> int" where
  "absYearDay d =
     (let n400 = d div 146097;
          d1 = d - 146097 * n400;
          n100 = d1 div 36524;
          c100 = n100 - n100 div 4;
          d2 = d1 - 36524 * c100;
          n4 = d2 div 1461;
          d3 = d2 - 1461 * n4;
          n1 = d3 div 365;
          c1 = n1 - n1 div 4;
          yday = d3 - 365 * c1
      in (400 * n400 + 100 * c100 + 4 * n4 + c1 + 1, yday))"

text \<open>Month (1 to 12) and day of the month of the day \<open>yday\<close> of \<open>year\<close>.\<close>

definition monthDay :: "int \<Rightarrow> int \<Rightarrow> int \<times> int" where
  "monthDay year yday =
     (if isLeap year \<and> yday = 31 + 29 - 1 then (2, 29)
      else
        let day = (if isLeap year \<and> yday > 31 + 29 - 1 then yday - 1 else yday);
            m = day div 31;
            e = daysBefore ! nat (m + 1)
        in if day \<ge> e then (m + 2, day - e + 1)
           else (m + 1, day - daysBefore ! nat m + 1))"

definition absDate :: "int \<Rightarrow> int \<times> int \<times> int" where
  "absDate d = (let (year, yday) = absYearDay d; (month, day) = monthDay year yday
                in (year, month, day))"

definition Time_Date :: "Time \<Rightarrow> int \<times> int \<times> int" where
  "Time_Date t = absDate (Time_abs t div 86400)"

definition Time_Clock :: "Time \<Rightarrow> int \<times> int \<times> int" where
  "Time_Clock t = (let s = Time_abs t mod 86400 in (s div 3600, s mod 3600 div 60, s mod 60))"

text \<open>Sunday is 0, Monday is 1, ..., Saturday is 6.\<close>

definition Time_Weekday :: "Time \<Rightarrow> int" where
  "Time_Weekday t = (Time_abs t + 86400) mod 604800 div 86400"

text \<open>\<^verbatim>\<open>norm\<close> carries the part of \<open>lo\<close> outside \<open>[0, base)\<close> into \<open>hi\<close>.\<close>

definition norm_hi_lo :: "int \<Rightarrow> int \<Rightarrow> int \<Rightarrow> int \<times> int" where
  "norm_hi_lo hi lo base =
     (let (hi1, lo1) = (if lo < 0 then (let n = (- lo - 1) div base + 1 in (hi - n, lo + n * base))
                        else (hi, lo))
      in if lo1 \<ge> base then (let n = lo1 div base in (hi1 + n, lo1 - n * base))
         else (hi1, lo1))"

text \<open>\<^verbatim>\<open>time.Date(year, month, day, hour, min, sec, nsec, loc)\<close>.\<close>

definition time_Date :: "int \<Rightarrow> int \<Rightarrow> int \<Rightarrow> int \<Rightarrow> int \<Rightarrow> int \<Rightarrow> int \<Rightarrow> int \<Rightarrow> Time" where
  "time_Date year month day hour minute sec ns loc =
     (let (year1, m) = norm_hi_lo year (month - 1) 12;
          month1 = m + 1;
          (sec1, ns1) = norm_hi_lo sec ns 1000000000;
          (min1, sec2) = norm_hi_lo minute sec1 60;
          (hour1, min2) = norm_hi_lo hour min1 60;
          (day1, hour2) = norm_hi_lo day hour1 24;
          d = daysSinceEpoch year1 + daysBefore ! nat (month1 - 1)
              + (if isLeap year1 \<and> month1 \<ge> 3 then 1 else 0) + (day1 - 1);
          a = d * 86400 + hour2 * 3600 + min2 * 60 + sec2
      in \<lparr>unix_sec = a - unixToYear1 - loc, nsec = ns1, loc_offset = loc\<rparr>)"

definition Time_AddDate :: "Time \<Rightarrow> int \<Rightarrow> int \<Rightarrow> int \<Rightarrow> Time" where
  "Time_AddDate t years months days =
     (let (year, month, day) = Time_Date t;
          (hour, minute, sec) = Time_Clock t
      in time_Date (year + years) (month + months) (day + days) hour minute sec (nsec t)
           (loc_offset t))"

text \<open>
  The ISO 8601 year and week number: the year of the Thursday of the week of \<open>t\<close>, and
  the count of that Thursday among the Thursdays of its year.
\<close>

definition Time_ISOWeek :: "Time \<Rightarrow> int \<times> int" where
  "Time_ISOWeek t =
     (let d = 4 - Time_Weekday t;
          d1 = (if d = 4 then - 3 else d);
          a = Time_abs t + d1 * 86400;
          (year, yday) = absYearDay (a div 86400)
      in (year, yday div 7 + 1))"

text \<open>
  Three notions used to state calendar facts: the number of the calendar day a value
  falls on in its own Location, the day number that \<^verbatim>\<open>time.Date\<close> assigns to a date
  (months outside 1 to 12 carry into the year, days count on linearly), and the value
  that is 00:00:00 of a given day in a given Location.
\<close>

definition Time_dayNumber :: "Time \<Rightarrow> int" where
  "Time_dayNumber t = Time_abs t div 86400"

definition dateDays :: "int \<Rightarrow> int \<Rightarrow> int \<Rightarrow> int" where
  "dateDays y m d =
     (let y1 = y + (m - 1) div 12; m1 = (m - 1) mod 12 + 1
      in daysSinceEpoch y1 + daysBefore ! nat (m1 - 1)
         + (if isLeap y1 \<and> 3 \<le> m1 then 1 else 0) + (d - 1))"

definition midnight :: "int \<Rightarrow> int \<Rightarrow> Time" where
  "midnight n loc = \<lparr>unix_sec = n * 86400 - unixToYear1 - loc, nsec = 0, loc_offset = loc\<rparr>"

subsection \<open>Formatting period keys\<close>

text \<open>The verbs \<^verbatim>\<open>%d\<close> and \<^verbatim>\<open>%02d\<close> of \<^verbatim>\<open>fmt.Sprintf\<close> on an integer.\<close>

fun digits :: "nat \<Rightarrow> string" where
  "digits n = (if n < 10 then [''0123456789'' ! n]
               else digits (n div 10) @ [''0123456789'' ! (n mod 10)])"

declare digits.simps [simp del]

definition fmt_d :: "int \<Rightarrow> string" where
  "fmt_d i = (if i < 0 then CHR ''-'' # digits (nat (- i)) else digits (nat i))"

definition fmt_02d :: "int \<Rightarrow> string" where
  "fmt_02d i = (if i < 0 then CHR ''-'' # digits (nat (- i))
                else let s = digits (nat i) in replicate (2 - length s) CHR ''0'' @ s)"

section \<open>Statistics utilities\<close>

text \<open>
  \<^verbatim>\<open>calculateMedianFloat\<close> receives a slice and sorts it with \<^verbatim>\<open>sort.Float64s\<close>, which
  writes into the caller's backing array. The model returns the result together with
  the contents of the caller's slice after the call.
\<close>

definition calculateMedianFloat :: "real list \<Rightarrow> real \<times> real list" where
  "calculateMedianFloat values =
     (if length values = 0 then (0, values)
      else
        let sorted_values = sort values;
            len = length sorted_values
        in if len mod 2 = 0
           then ((sorted_values ! (len div 2 - 1) + sorted_values ! (len div 2)) / 2, sorted_values)
           else (sorted_values ! (len div 2), sorted_values))"

text \<open>
  \<^verbatim>\<open>calculateMedianInt\<close> converts into a fresh slice \<open>floatValues\<close> and hands that one to
  \<^verbatim>\<open>calculateMedianFloat\<close>; its own argument is only read.
\<close>

definition calculateMedianInt :: "int list \<Rightarrow> real \<times> int list" where
  "calculateMedianInt values =
     (if length values = 0 then (0, values)
      else
        let floatValues = map real_of_int values
        in (fst (calculateMedianFloat floatValues), values))"

definition getStartOfISOWeek :: "Time \<Rightarrow> Time" where
  "getStartOfISOWeek date =
     (let weekday = Time_Weekday date;
          isoWeekday = (if weekday = 0 then 7 else weekday);
          daysToSubtract = isoWeekday - 1;
          (year, month, day) = Time_Date date;
          startOfDay = time_Date year month day 0 0 0 0 (loc_offset date)
      in Time_AddDate startOfDay 0 0 (- daysToSubtract))"

section \<open>Data model\<close>

text \<open>
  The entities of the GitHub client library, reduced to what the metrics code reads. A
  scalar field holds what its \<^verbatim>\<open>Get...\<close> accessor returns (the zero value when the
  pointer is nil). The author date of a commit sits behind three pointers that the code
  tests one by one, so they are kept as options.
\<close>

datatype CommitAuthor = CommitAuthor (author_Date: "Time option")

datatype Commit = Commit (commit_Author: "CommitAuthor option")

datatype RepositoryCommit = RepositoryCommit (rc_Commit: "Commit option")

record PullRequestComment =
  comment_CreatedAt :: Time

record PullRequestReview =
  review_State :: string
  review_SubmittedAt :: Time

record PullRequest =
  pr_Number :: int
  pr_Title :: string
  pr_UserLogin :: string
  pr_CreatedAt :: Time
  pr_MergedAt :: Time
  pr_State :: string
  pr_Milestone :: "string option"
  pr_Additions :: int
  pr_Deletions :: int
  pr_ChangedFiles :: int

record PRMetrics =
  Number :: int
  Title :: string
  Author :: string
  Milestone :: string
  CreatedAt :: Time
  MergedAt :: Time
  State :: string
  CommitCount :: int
  FirstCommitAt :: Time
  LastCommitAt :: Time
  FirstCommitToCreateHours :: real
  CreateToLastCommitHours :: real
  CommitCountDuringPR :: int
  FirstCommitToMergeHours :: real
  LastCommitToMergeHours :: real
  CommentCount :: int
  FirstCommentAt :: Time
  CreatedToFirstCommentHours :: real
  ReviewCount :: int
  Additions :: int
  Deletions :: int
  ChangedFiles :: int
  ApprovalCount :: int
  TimeToApprovalHours :: real
  TotalPRLifetimeHours :: real
  MaxNoCommentPeriodHours :: real
  MaxNoCommitPeriodHours :: real
  MaxNoActivityPeriodHours :: real

record AggregatedMetrics =
  Period :: string
  StartDate :: Time
  EndDate :: Time
  PRCount :: int
  AvgCommitCount :: real
  AvgCommentCount :: real
  AvgReviewCount :: real
  AvgApprovalCount :: real
  AvgAdditions :: real
  AvgDeletions :: real
  AvgChangedFiles :: real
  AvgFirstCommitToCreateHours :: real
  AvgCreateToLastCommitHours :: real
  AvgCommitCountDuringPR :: real
  AvgFirstCommitToMergeHours :: real
  AvgLastCommitToMergeHours :: real
  AvgCreatedToFirstCommentHours :: real
  AvgTimeToApprovalHours :: real
  AvgTotalPRLifetimeHours :: real
  AvgMaxNoCommentPeriodHours :: real
  AvgMaxNoCommitPeriodHours :: real
  AvgMaxNoActivityPeriodHours :: real
  MedianCommitCount :: real
  MedianCommentCount :: real
  MedianReviewCount :: real
  MedianApprovalCount :: real
  MedianAdditions :: real
  MedianDeletions :: real
  MedianChangedFiles :: real
  MedianFirstCommitToCreateHours :: real
  MedianCreateToLastCommitHours :: real
  MedianCommitCountDuringPR :: real
  MedianFirstCommitToMergeHours :: real
  MedianLastCommitToMergeHours :: real
  MedianCreatedToFirstCommentHours :: real
  MedianTimeToApprovalHours :: real
  MedianTotalPRLifetimeHours :: real
  MedianMaxNoCommentPeriodHours :: real
  MedianMaxNoCommitPeriodHours :: real
  MedianMaxNoActivityPeriodHours :: real

text \<open>The zero values of the two structs.\<close>

definition zeroPRMetrics :: PRMetrics where
  "zeroPRMetrics = \<lparr>Number = 0, Title = [], Author = [], Milestone = [], CreatedAt = zeroTime,
     MergedAt = zeroTime, State = [], CommitCount = 0, FirstCommitAt = zeroTime,
     LastCommitAt = zeroTime, FirstCommitToCreateHours = 0, CreateToLastCommitHours = 0,
     CommitCountDuringPR = 0, FirstCommitToMergeHours = 0, LastCommitToMergeHours = 0,
     CommentCount = 0, FirstCommentAt = zeroTime, CreatedToFirstCommentHours = 0,
     ReviewCount = 0, Additions = 0, Deletions = 0, ChangedFiles = 0, ApprovalCount = 0,
     TimeToApprovalHours = 0, TotalPRLifetimeHours = 0, MaxNoCommentPeriodHours = 0,
     MaxNoCommitPeriodHours = 0, MaxNoActivityPeriodHours = 0\<rparr>"

definition zeroAggregatedMetrics :: AggregatedMetrics where
  "zeroAggregatedMetrics = \<lparr>Period = [], StartDate = zeroTime, EndDate = zeroTime, PRCount = 0,
     AvgCommitCount = 0, AvgCommentCount = 0, AvgReviewCount = 0, AvgApprovalCount = 0,
     AvgAdditions = 0, AvgDeletions = 0, AvgChangedFiles = 0, AvgFirstCommitToCreateHours = 0,
     AvgCreateToLastCommitHours = 0, AvgCommitCountDuringPR = 0, AvgFirstCommitToMergeHours = 0,
     AvgLastCommitToMergeHours = 0, AvgCreatedToFirstCommentHours = 0,
     AvgTimeToApprovalHours = 0, AvgTotalPRLifetimeHours = 0, AvgMaxNoCommentPeriodHours = 0,
     AvgMaxNoCommitPeriodHours = 0, AvgMaxNoActivityPeriodHours = 0, MedianCommitCount = 0,
     MedianCommentCount = 0, MedianReviewCount = 0, MedianApprovalCount = 0,
     MedianAdditions = 0, MedianDeletions = 0, MedianChangedFiles = 0,
     MedianFirstCommitToCreateHours = 0, MedianCreateToLastCommitHours = 0,
     MedianCommitCountDuringPR = 0, MedianFirstCommitToMergeHours = 0,
     MedianLastCommitToMergeHours = 0, MedianCreatedToFirstCommentHours = 0,
     MedianTimeToApprovalHours = 0, MedianTotalPRLifetimeHours = 0,
     MedianMaxNoCommentPeriodHours = 0, MedianMaxNoCommitPeriodHours = 0,
     MedianMaxNoActivityPeriodHours = 0\<rparr>"

section \<open>Per-PR metrics calculator\<close>

text \<open>
  The API client is an external collaborator: each fetch either fails with an error or
  returns the requested data.
\<close>

datatype error = FetchError string

record Client =
  GetPRDetails :: "string \<Rightarrow> string \<Rightarrow> int \<Rightarrow> error + PullRequest"
  GetPRCommits :: "string \<Rightarrow> string \<Rightarrow> int \<Rightarrow> error + RepositoryCommit list"
  GetPRComments :: "string \<Rightarrow> string \<Rightarrow> int \<Rightarrow> error + PullRequestComment list"
  GetPRReviews :: "string \<Rightarrow> string \<Rightarrow> int \<Rightarrow> error + PullRequestReview list"

text \<open>
  Modelled from the spec: the logger of package \<^verbatim>\<open>utils\<close> is not among the sources. The
  spec says that a failure is logged and otherwise ignores the logger, so a call of
  \<^verbatim>\<open>Debug\<close>, \<^verbatim>\<open>Info\<close>, \<^verbatim>\<open>Warn\<close> or \<^verbatim>\<open>Error\<close> is modelled as appending an entry to the
  list of entries written: the level, the format string and the PR number (or count) the
  call is about.
\<close>

datatype log_level = LevelDebug | LevelInfo | LevelWarn | LevelError

type_synonym log_entry = "log_level \<times> string \<times> int"

definition calculatePRDetails :: "Client \<Rightarrow> string \<Rightarrow> string \<Rightarrow> int \<Rightarrow> error + (int \<times> int \<times> int)" where
  "calculatePRDetails c owner repo number =
     (case GetPRDetails c owner repo number of
        Inl err \<Rightarrow> Inl err
      | Inr prDetails \<Rightarrow>
          Inr (pr_Additions prDetails, pr_Deletions prDetails, pr_ChangedFiles prDetails))"

text \<open>
  The author date of a commit, when \<^verbatim>\<open>commit.Commit\<close>, \<^verbatim>\<open>commit.Commit.Author\<close> and
  \<^verbatim>\<open>commit.Commit.Author.Date\<close> are all non-nil.
\<close>

definition commitDate :: "RepositoryCommit \<Rightarrow> Time option" where
  "commitDate commit =
     (case rc_Commit commit of
        None \<Rightarrow> None
      | Some cm \<Rightarrow> (case commit_Author cm of None \<Rightarrow> None | Some a \<Rightarrow> author_Date a))"

record CommitMetricsResult =
  cm_CommitCount :: int
  cm_FirstCommitAt :: Time
  cm_LastCommitAt :: Time
  cm_CommitCountDuringPR :: int

definition calculateCommitMetrics :: "RepositoryCommit list \<Rightarrow> Time \<Rightarrow> CommitMetricsResult" where
  "calculateCommitMetrics commits createdAt =
     (let result = \<lparr>cm_CommitCount = int (length commits), cm_FirstCommitAt = zeroTime,
                     cm_LastCommitAt = zeroTime, cm_CommitCountDuringPR = 0\<rparr>
      in if length commits > 0 then
           let firstCommit = commits ! 0;
               lastCommit = commits ! (length commits - 1);
               result1 = (case commitDate firstCommit of
                            Some t \<Rightarrow> result\<lparr>cm_FirstCommitAt := t\<rparr>
                          | None \<Rightarrow> result);
               result2 = (case commitDate lastCommit of
                            Some t \<Rightarrow> result1\<lparr>cm_LastCommitAt := t\<rparr>
                          | None \<Rightarrow> result1);
               commitsDuringPR =
                 foldl (\<lambda>n commit.
                          case commitDate commit of
                            Some commitTime \<Rightarrow>
                              if \<not> Time_Before commitTime createdAt then n + 1 else n
                          | None \<Rightarrow> n) 0 commits
           in result2\<lparr>cm_CommitCountDuringPR := commitsDuringPR\<rparr>
         else result)"

record CommentMetricsResult =
  cr_CommentCount :: int
  cr_FirstCommentAt :: Time

definition calculateCommentMetrics :: "PullRequestComment list \<Rightarrow> CommentMetricsResult" where
  "calculateCommentMetrics comments =
     (let result = \<lparr>cr_CommentCount = int (length comments), cr_FirstCommentAt = zeroTime\<rparr>
      in if length comments > 0
         then result\<lparr>cr_FirstCommentAt := comment_CreatedAt (comments ! 0)\<rparr>
         else result)"

record ReviewMetricsResult =
  rr_ReviewCount :: int
  rr_ApprovalCount :: int
  rr_FirstApprovalAt :: Time

definition calculateReviewMetrics ::
    "Client \<Rightarrow> string \<Rightarrow> string \<Rightarrow> int \<Rightarrow> error + ReviewMetricsResult" where
  "calculateReviewMetrics c owner repo number =
     (case GetPRReviews c owner repo number of
        Inl err \<Rightarrow> Inl err
      | Inr reviews \<Rightarrow>
          let (approvalCount, firstApprovalAt) =
                foldl (\<lambda>(approvalCount, firstApprovalAt) review.
                         if review_State review = ''APPROVED'' then
                           (approvalCount + 1,
                            if Time_IsZero firstApprovalAt
                               \<or> Time_Before (review_SubmittedAt review) firstApprovalAt
                            then review_SubmittedAt review else firstApprovalAt)
                         else (approvalCount, firstApprovalAt))
                  (0, zeroTime) reviews
          in Inr \<lparr>rr_ReviewCount = int (length reviews), rr_ApprovalCount = approvalCount,
                  rr_FirstApprovalAt = firstApprovalAt\<rparr>)"

record TimeMetricsResult =
  tm_FirstCommitToCreateHours :: real
  tm_CreateToLastCommitHours :: real
  tm_FirstCommitToMergeHours :: real
  tm_LastCommitToMergeHours :: real
  tm_TotalPRLifetimeHours :: real
  tm_CreatedToFirstCommentHours :: real

definition calculateTimeMetrics :: "Time \<Rightarrow> Time \<Rightarrow> Time \<Rightarrow> Time \<Rightarrow> Time \<Rightarrow> TimeMetricsResult" where
  "calculateTimeMetrics createdAt mergedAt firstCommitAt lastCommitAt firstCommentAt =
     (let result = \<lparr>tm_FirstCommitToCreateHours = 0, tm_CreateToLastCommitHours = 0,
                     tm_FirstCommitToMergeHours = 0, tm_LastCommitToMergeHours = 0,
                     tm_TotalPRLifetimeHours = 0, tm_CreatedToFirstCommentHours = 0\<rparr>;
          result1 = (if \<not> Time_IsZero firstCommitAt
                     then result\<lparr>tm_FirstCommitToCreateHours :=
                            Duration_Hours (Time_Sub createdAt firstCommitAt)\<rparr>
                     else result);
          result2 = (if \<not> Time_IsZero lastCommitAt
                     then result1\<lparr>tm_CreateToLastCommitHours :=
                            Duration_Hours (Time_Sub lastCommitAt createdAt)\<rparr>
                     else result1);
          result3 = (if \<not> Time_IsZero mergedAt then
                       let r1 = (if \<not> Time_IsZero firstCommitAt
                                 then result2\<lparr>tm_FirstCommitToMergeHours :=
                                        Duration_Hours (Time_Sub mergedAt firstCommitAt)\<rparr>
                                 else result2);
                           r2 = (if \<not> Time_IsZero lastCommitAt
                                 then r1\<lparr>tm_LastCommitToMergeHours :=
                                        Duration_Hours (Time_Sub mergedAt lastCommitAt)\<rparr>
                                 else r1)
                       in r2\<lparr>tm_TotalPRLifetimeHours :=
                               Duration_Hours (Time_Sub mergedAt createdAt)\<rparr>
                     else result2)
      in if \<not> Time_IsZero firstCommentAt
         then result3\<lparr>tm_CreatedToFirstCommentHours :=
                Duration_Hours (Time_Sub firstCommentAt createdAt)\<rparr>
         else result3)"

record WaitingPeriodsResult =
  wp_MaxNoActivityPeriodHours :: real
  wp_MaxNoCommentPeriodHours :: real
  wp_MaxNoCommitPeriodHours :: real

text \<open>
  \<^verbatim>\<open>sort.Slice\<close> with \<^verbatim>\<open>Before\<close> orders timestamps by their instant. Entries it may
  permute denote the same instant, and the gaps below read instants only.
\<close>

definition sortTimes :: "Time list \<Rightarrow> Time list" where
  "sortTimes ts = sort_key (\<lambda>t. (unix_sec t, nsec t)) ts"

text \<open>
  The loop \<^verbatim>\<open>for i := 0; i < len(ts)-1; i++\<close> that keeps the largest gap, in hours,
  between neighbours, starting from the running maximum \<open>m\<close>.
\<close>

fun maxGap :: "real \<Rightarrow> Time list \<Rightarrow> real" where
  "maxGap m (t # u # ts) =
     (let gap = Duration_Hours (Time_Sub u t)
      in maxGap (if gap > m then gap else m) (u # ts))"
| "maxGap m ts = m"

definition calculateWaitingPeriods ::
    "RepositoryCommit list \<Rightarrow> PullRequestComment list \<Rightarrow> WaitingPeriodsResult" where
  "calculateWaitingPeriods commits comments =
     (let allEvents = sortTimes (List.map_filter commitDate commits @ map comment_CreatedAt comments);
          commitTimes = sortTimes (List.map_filter commitDate commits);
          commentTimes = sortTimes (map comment_CreatedAt comments);
          maxNoActivityPeriod = maxGap 0 allEvents;
          maxNoCommentPeriod = maxGap 0 commentTimes;
          maxNoCommitPeriod = maxGap 0 commitTimes
      in \<lparr>wp_MaxNoActivityPeriodHours = maxNoActivityPeriod,
          wp_MaxNoCommentPeriodHours = maxNoCommentPeriod,
          wp_MaxNoCommitPeriodHours = maxNoCommitPeriod\<rparr>)"

definition CalculatePRMetrics ::
    "Client \<Rightarrow> string \<Rightarrow> string \<Rightarrow> PullRequest \<Rightarrow> log_entry list \<times> (error + PRMetrics)" where
  "CalculatePRMetrics c owner repo pr =
     (let log0 = [(LevelDebug, ''Calculating metrics for PR #%d: %s'', pr_Number pr)];
          metrics = zeroPRMetrics\<lparr>Number := pr_Number pr, Title := pr_Title pr,
                      Author := pr_UserLogin pr, CreatedAt := pr_CreatedAt pr,
                      MergedAt := pr_MergedAt pr, State := pr_State pr\<rparr>;
          metrics1 = (case pr_Milestone pr of
                        Some title \<Rightarrow> metrics\<lparr>Milestone := title\<rparr>
                      | None \<Rightarrow> metrics)
      in case calculatePRDetails c owner repo (pr_Number pr) of
           Inl err \<Rightarrow> (log0, Inl err)
         | Inr (additions, deletions, changedFiles) \<Rightarrow>
             let metrics2 = metrics1\<lparr>Additions := additions, Deletions := deletions,
                              ChangedFiles := changedFiles\<rparr>
             in case GetPRCommits c owner repo (pr_Number pr) of
                  Inl err \<Rightarrow> (log0, Inl err)
                | Inr commits \<Rightarrow>
                    let commitMetrics = calculateCommitMetrics commits (CreatedAt metrics2);
                        metrics3 = metrics2\<lparr>CommitCount := cm_CommitCount commitMetrics,
                                     FirstCommitAt := cm_FirstCommitAt commitMetrics,
                                     LastCommitAt := cm_LastCommitAt commitMetrics,
                                     CommitCountDuringPR := cm_CommitCountDuringPR commitMetrics\<rparr>;
                        (log1, comments, metrics4) =
                          (case GetPRComments c owner repo (pr_Number pr) of
                             Inl err \<Rightarrow>
                               (log0 @ [(LevelWarn, ''Failed to get comments for PR #%d: %v'',
                                         pr_Number pr)], [], metrics3)
                           | Inr comments \<Rightarrow>
                               let commentMetrics = calculateCommentMetrics comments
                               in (log0, comments,
                                   metrics3\<lparr>CommentCount := cr_CommentCount commentMetrics,
                                     FirstCommentAt := cr_FirstCommentAt commentMetrics\<rparr>));
                        (log2, metrics5) =
                          (case calculateReviewMetrics c owner repo (pr_Number pr) of
                             Inl err \<Rightarrow>
                               (log1 @ [(LevelWarn, ''Failed to get reviews for PR #%d: %v'',
                                         pr_Number pr)], metrics4)
                           | Inr reviewMetrics \<Rightarrow>
                               let m = metrics4\<lparr>ReviewCount := rr_ReviewCount reviewMetrics,
                                         ApprovalCount := rr_ApprovalCount reviewMetrics\<rparr>
                               in (log1,
                                   if \<not> Time_IsZero (rr_FirstApprovalAt reviewMetrics)
                                   then m\<lparr>TimeToApprovalHours :=
                                          Duration_Hours (Time_Sub (rr_FirstApprovalAt reviewMetrics)
                                            (CreatedAt m))\<rparr>
                                   else m));
                        timeMetrics = calculateTimeMetrics (CreatedAt metrics5) (MergedAt metrics5)
                                        (FirstCommitAt metrics5) (LastCommitAt metrics5)
                                        (FirstCommentAt metrics5);
                        metrics6 = metrics5\<lparr>
                          FirstCommitToCreateHours := tm_FirstCommitToCreateHours timeMetrics,
                          CreateToLastCommitHours := tm_CreateToLastCommitHours timeMetrics,
                          FirstCommitToMergeHours := tm_FirstCommitToMergeHours timeMetrics,
                          LastCommitToMergeHours := tm_LastCommitToMergeHours timeMetrics,
                          TotalPRLifetimeHours := tm_TotalPRLifetimeHours timeMetrics,
                          CreatedToFirstCommentHours := tm_CreatedToFirstCommentHours timeMetrics\<rparr>;
                        metrics7 =
                          (if length commits > 0 \<and> length comments > 0 then
                             let waitingPeriods = calculateWaitingPeriods commits comments
                             in metrics6\<lparr>
                                  MaxNoActivityPeriodHours := wp_MaxNoActivityPeriodHours waitingPeriods,
                                  MaxNoCommentPeriodHours := wp_MaxNoCommentPeriodHours waitingPeriods,
                                  MaxNoCommitPeriodHours := wp_MaxNoCommitPeriodHours waitingPeriods\<rparr>
                           else metrics6)
                    in (log2 @ [(LevelDebug,
                          ''Calculated metrics for PR #%d: %d commits, %d comments, %d reviews, %d approvals'',
                          pr_Number pr)], Inr metrics7))"



subsection \<open>A sample client\<close>

text \<open>
  Concrete inputs on which the calculator is evaluated below. Timestamps are UTC, given
  in seconds since 1970. The sample client knows five PRs: for PR 1 every fetch
  succeeds (one commit at second 0, one comment an hour later, one approval after two
  hours), for PR 2 the detail fetch fails, for PR 3 the comment and review fetches
  fail, for PR 4 the commit fetch fails, and PR 5 is PR 1 with a second commit an hour
  after the first.
\<close>

definition utcTime :: "int \<Rightarrow> Time" where
  "utcTime s = \<lparr>unix_sec = s, nsec = 0, loc_offset = 0\<rparr>"

definition samplePR :: "int \<Rightarrow> PullRequest" where
  "samplePR n = \<lparr>pr_Number = n, pr_Title = ''sample'', pr_UserLogin = ''alice'',
     pr_CreatedAt = utcTime 1800, pr_MergedAt = utcTime 86400, pr_State = ''closed'',
     pr_Milestone = None, pr_Additions = 10, pr_Deletions = 2, pr_ChangedFiles = 1\<rparr>"

definition sampleCommit :: "int \<Rightarrow> RepositoryCommit" where
  "sampleCommit s = RepositoryCommit (Some (Commit (Some (CommitAuthor (Some (utcTime s))))))"

definition sampleClient :: Client where
  "sampleClient =
     \<lparr>GetPRDetails = (\<lambda>owner repo n. if n = 2 then Inl (FetchError ''details'')
                                        else Inr (samplePR n)),
      GetPRCommits = (\<lambda>owner repo n. if n = 4 then Inl (FetchError ''commits'')
                                        else if n = 5
                                        then Inr [sampleCommit 0, sampleCommit 3600]
                                        else Inr [sampleCommit 0]),
      GetPRComments = (\<lambda>owner repo n. if n = 3 then Inl (FetchError ''comments'')
                                        else Inr [\<lparr>comment_CreatedAt = utcTime 3600\<rparr>]),
      GetPRReviews = (\<lambda>owner repo n. if n = 3 then Inl (FetchError ''reviews'')
                                        else Inr [\<lparr>review_State = ''APPROVED'',
                                                   review_SubmittedAt = utcTime 7200\<rparr>])\<rparr>"

section \<open>Aggregated metrics calculator\<close>

text \<open>
  The summarizing loop keeps, for every field, accumulators that no other field touches,
  so the single loop over the PRs is written as one fold per field. Count fields add
  into a sum and append to a collection on every PR.
\<close>

definition sumCount :: "(PRMetrics \<Rightarrow> int) \<Rightarrow> PRMetrics list \<Rightarrow> int" where
  "sumCount f prs = foldl (\<lambda>s pr. s + f pr) 0 prs"

definition collectCount :: "(PRMetrics \<Rightarrow> int) \<Rightarrow> PRMetrics list \<Rightarrow> int list" where
  "collectCount f prs = foldl (\<lambda>vs pr. vs @ [f pr]) [] prs"

text \<open>
  Time fields add into the sum, the inclusion counter and the collection only when the
  PR's value is positive: the triple is (sum, count, collection).
\<close>

definition accumHours :: "(PRMetrics \<Rightarrow> real) \<Rightarrow> PRMetrics list \<Rightarrow> real \<times> int \<times> real list" where
  "accumHours f prs =
     foldl (\<lambda>(s, n, vs) pr. if f pr > 0 then (s + f pr, n + 1, vs @ [f pr]) else (s, n, vs))
       (0, 0, []) prs"

text \<open>Average and median of a time field, left at zero when no PR was included.\<close>

definition avgHours :: "real \<times> int \<times> real list \<Rightarrow> real" where
  "avgHours acc = (case acc of (s, n, vs) \<Rightarrow> if n > 0 then s / real_of_int n else 0)"

definition medianHours :: "real \<times> int \<times> real list \<Rightarrow> real" where
  "medianHours acc = (case acc of (s, n, vs) \<Rightarrow> if n > 0 then fst (calculateMedianFloat vs) else 0)"

definition calculateAggregatedMetrics ::
    "string \<Rightarrow> Time \<Rightarrow> Time \<Rightarrow> PRMetrics list \<Rightarrow> AggregatedMetrics" where
  "calculateAggregatedMetrics period startDate endDate prs =
     (let prCount = int (length prs)
      in if prCount = 0
         then zeroAggregatedMetrics\<lparr>Period := period, StartDate := startDate,
                EndDate := endDate, PRCount := 0\<rparr>
         else
           let firstCommitToCreate = accumHours FirstCommitToCreateHours prs;
               createToLastCommit = accumHours CreateToLastCommitHours prs;
               firstCommitToMerge = accumHours FirstCommitToMergeHours prs;
               lastCommitToMerge = accumHours LastCommitToMergeHours prs;
               createdToFirstComment = accumHours CreatedToFirstCommentHours prs;
               timeToApproval = accumHours TimeToApprovalHours prs;
               totalPRLifetime = accumHours TotalPRLifetimeHours prs;
               maxNoCommentPeriod = accumHours MaxNoCommentPeriodHours prs;
               maxNoCommitPeriod = accumHours MaxNoCommitPeriodHours prs;
               maxNoActivityPeriod = accumHours MaxNoActivityPeriodHours prs
           in \<lparr>Period = period, StartDate = startDate, EndDate = endDate, PRCount = prCount,
                AvgCommitCount = real_of_int (sumCount CommitCount prs) / real_of_int prCount,
                AvgCommentCount = real_of_int (sumCount CommentCount prs) / real_of_int prCount,
                AvgReviewCount = real_of_int (sumCount ReviewCount prs) / real_of_int prCount,
                AvgApprovalCount = real_of_int (sumCount ApprovalCount prs) / real_of_int prCount,
                AvgAdditions = real_of_int (sumCount Additions prs) / real_of_int prCount,
                AvgDeletions = real_of_int (sumCount Deletions prs) / real_of_int prCount,
                AvgChangedFiles = real_of_int (sumCount ChangedFiles prs) / real_of_int prCount,
                AvgFirstCommitToCreateHours = avgHours firstCommitToCreate,
                AvgCreateToLastCommitHours = avgHours createToLastCommit,
                AvgCommitCountDuringPR =
                  real_of_int (sumCount CommitCountDuringPR prs) / real_of_int prCount,
                AvgFirstCommitToMergeHours = avgHours firstCommitToMerge,
                AvgLastCommitToMergeHours = avgHours lastCommitToMerge,
                AvgCreatedToFirstCommentHours = avgHours createdToFirstComment,
                AvgTimeToApprovalHours = avgHours timeToApproval,
                AvgTotalPRLifetimeHours = avgHours totalPRLifetime,
                AvgMaxNoCommentPeriodHours = avgHours maxNoCommentPeriod,
                AvgMaxNoCommitPeriodHours = avgHours maxNoCommitPeriod,
                AvgMaxNoActivityPeriodHours = avgHours maxNoActivityPeriod,
                MedianCommitCount = fst (calculateMedianInt (collectCount CommitCount prs)),
                MedianCommentCount = fst (calculateMedianInt (collectCount CommentCount prs)),
                MedianReviewCount = fst (calculateMedianInt (collectCount ReviewCount prs)),
                MedianApprovalCount = fst (calculateMedianInt (collectCount ApprovalCount prs)),
                MedianAdditions = fst (calculateMedianInt (collectCount Additions prs)),
                MedianDeletions = fst (calculateMedianInt (collectCount Deletions prs)),
                MedianChangedFiles = fst (calculateMedianInt (collectCount ChangedFiles prs)),
                MedianFirstCommitToCreateHours = medianHours firstCommitToCreate,
                MedianCreateToLastCommitHours = medianHours createToLastCommit,
                MedianCommitCountDuringPR =
                  fst (calculateMedianInt (collectCount CommitCountDuringPR prs)),
                MedianFirstCommitToMergeHours = medianHours firstCommitToMerge,
                MedianLastCommitToMergeHours = medianHours lastCommitToMerge,
                MedianCreatedToFirstCommentHours = medianHours createdToFirstComment,
                MedianTimeToApprovalHours = medianHours timeToApproval,
                MedianTotalPRLifetimeHours = medianHours totalPRLifetime,
                MedianMaxNoCommentPeriodHours = medianHours maxNoCommentPeriod,
                MedianMaxNoCommitPeriodHours = medianHours maxNoCommitPeriod,
                MedianMaxNoActivityPeriodHours = medianHours maxNoActivityPeriod\<rparr>)"

subsection \<open>Grouping by period\<close>

text \<open>
  The three Go maps keyed by the period string, as association lists with one entry per
  key. Reading a key that is absent yields the zero value of the element type.
\<close>

record periodMaps =
  periodPRs :: "(string \<times> PRMetrics list) list"
  periodStartDates :: "(string \<times> Time) list"
  periodEndDates :: "(string \<times> Time) list"

definition emptyMaps :: periodMaps where
  "emptyMaps = \<lparr>periodPRs = [], periodStartDates = [], periodEndDates = []\<rparr>"

definition lookupPRs :: "(string \<times> PRMetrics list) list \<Rightarrow> string \<Rightarrow> PRMetrics list" where
  "lookupPRs m k = (case map_of m k of None \<Rightarrow> [] | Some v \<Rightarrow> v)"

definition lookupTime :: "(string \<times> Time) list \<Rightarrow> string \<Rightarrow> Time" where
  "lookupTime m k = (case map_of m k of None \<Rightarrow> zeroTime | Some v \<Rightarrow> v)"

text \<open>
  The end of both grouping loops: create the bucket with its start and end when the key
  is new, then append the PR to the bucket.
\<close>

definition addToPeriod :: "string \<Rightarrow> Time \<Rightarrow> Time \<Rightarrow> PRMetrics \<Rightarrow> periodMaps \<Rightarrow> periodMaps" where
  "addToPeriod key startOfPeriod endOfPeriod pr st =
     (let st1 = (if map_of (periodPRs st) key = None
                 then \<lparr>periodPRs = AList.update key [] (periodPRs st),
                        periodStartDates = AList.update key startOfPeriod (periodStartDates st),
                        periodEndDates = AList.update key endOfPeriod (periodEndDates st)\<rparr>
                 else st)
      in st1\<lparr>periodPRs := AList.update key (lookupPRs (periodPRs st1) key @ [pr]) (periodPRs st1)\<rparr>)"

definition weeklyStep :: "periodMaps \<Rightarrow> PRMetrics \<Rightarrow> periodMaps" where
  "weeklyStep st pr =
     (if Time_IsZero (MergedAt pr) then st
      else
        let (year, week) = Time_ISOWeek (MergedAt pr);
            weekKey = fmt_d year @ ''-W'' @ fmt_02d week;
            startOfWeek = getStartOfISOWeek (MergedAt pr);
            endOfWeek = Time_AddDate startOfWeek 0 0 6
        in addToPeriod weekKey startOfWeek endOfWeek pr st)"

definition monthlyStep :: "periodMaps \<Rightarrow> PRMetrics \<Rightarrow> periodMaps" where
  "monthlyStep st pr =
     (if Time_IsZero (MergedAt pr) then st
      else
        let (year, month, day) = Time_Date (MergedAt pr);
            monthKey = fmt_d year @ ''-'' @ fmt_02d month;
            startOfMonth = time_Date year month 1 0 0 0 0 (loc_offset (MergedAt pr));
            endOfMonth = Time_AddDate startOfMonth 0 1 (- 1)
        in addToPeriod monthKey startOfMonth endOfMonth pr st)"

definition weeklyGroups :: "PRMetrics list \<Rightarrow> periodMaps" where
  "weeklyGroups prMetrics = foldl weeklyStep emptyMaps prMetrics"

definition monthlyGroups :: "PRMetrics list \<Rightarrow> periodMaps" where
  "monthlyGroups prMetrics = foldl monthlyStep emptyMaps prMetrics"

text \<open>
  The second loop ranges over the map of buckets and the result is sorted by period.
  The periods are the keys of the map, hence pairwise different, so the sorted result
  does not depend on the order in which the map is ranged over.
\<close>

definition aggregateGroups :: "periodMaps \<Rightarrow> AggregatedMetrics list" where
  "aggregateGroups st =
     sort_key Period
       (map (\<lambda>(key, prs). calculateAggregatedMetrics key (lookupTime (periodStartDates st) key)
                            (lookupTime (periodEndDates st) key) prs)
          (periodPRs st))"

definition CalculateWeeklyAggregatedMetrics :: "PRMetrics list \<Rightarrow> AggregatedMetrics list" where
  "CalculateWeeklyAggregatedMetrics prMetrics = aggregateGroups (weeklyGroups prMetrics)"

definition CalculateMonthlyAggregatedMetrics :: "PRMetrics list \<Rightarrow> AggregatedMetrics list" where
  "CalculateMonthlyAggregatedMetrics prMetrics = aggregateGroups (monthlyGroups prMetrics)"

subsection \<open>Notions used to state the properties of the aggregation\<close>

text \<open>
  Both grouping loops are instances of one step, determined by the key, the start and the
  end that the loop computes from a merge timestamp.
\<close>

definition weekKeyOf :: "Time \<Rightarrow> string" where
  "weekKeyOf t = (let (year, week) = Time_ISOWeek t in fmt_d year @ ''-W'' @ fmt_02d week)"

definition monthKeyOf :: "Time \<Rightarrow> string" where
  "monthKeyOf t = (let (year, month, day) = Time_Date t in fmt_d year @ ''-'' @ fmt_02d month)"

definition periodStep ::
    "(Time \<Rightarrow> string) \<Rightarrow> (Time \<Rightarrow> Time) \<Rightarrow> (Time \<Rightarrow> Time) \<Rightarrow> periodMaps \<Rightarrow> PRMetrics \<Rightarrow> periodMaps" where
  "periodStep K S E st pr =
     (if Time_IsZero (MergedAt pr) then st
      else addToPeriod (K (MergedAt pr)) (S (MergedAt pr)) (E (MergedAt pr)) pr st)"

definition weekEnd :: "Time \<Rightarrow> Time" where
  "weekEnd t = Time_AddDate (getStartOfISOWeek t) 0 0 6"

definition monthStart :: "Time \<Rightarrow> Time" where
  "monthStart t = (let (year, month, day) = Time_Date t
                   in time_Date year month 1 0 0 0 0 (loc_offset t))"

definition monthEnd :: "Time \<Rightarrow> Time" where
  "monthEnd t = Time_AddDate (monthStart t) 0 1 (- 1)"

text \<open>
  The invariant of the grouping loops: keys are not repeated; a bucket is not empty, holds
  merged PRs whose key is the bucket's, and has the start and end computed from its
  first PR.
\<close>

definition bucketsOk ::
    "(Time \<Rightarrow> string) \<Rightarrow> (Time \<Rightarrow> Time) \<Rightarrow> (Time \<Rightarrow> Time) \<Rightarrow> periodMaps \<Rightarrow> bool" where
  "bucketsOk K S E st \<longleftrightarrow>
     distinct (map fst (periodPRs st))
     \<and> (\<forall>k ps. map_of (periodPRs st) k = Some ps \<longrightarrow>
           ps \<noteq> []
           \<and> (\<forall>p \<in> set ps. \<not> Time_IsZero (MergedAt p) \<and> K (MergedAt p) = k)
           \<and> map_of (periodStartDates st) k = Some (S (MergedAt (hd ps)))
           \<and> map_of (periodEndDates st) k = Some (E (MergedAt (hd ps))))"

text \<open>The number of PRs held in all buckets.\<close>

definition bucketTotal :: "periodMaps \<Rightarrow> int" where
  "bucketTotal st = sum_list (map (\<lambda>(k, ps). int (length ps)) (periodPRs st))"

text \<open>
  The inclusion set of a duration field: the positive values of the field, in the order
  of the PRs. The mean and the median of a collection, 0 for the empty collection.
\<close>

definition positiveValues :: "(PRMetrics \<Rightarrow> real) \<Rightarrow> PRMetrics list \<Rightarrow> real list" where
  "positiveValues f prs = filter (\<lambda>v. 0 < v) (map f prs)"

definition meanOrZero :: "real list \<Rightarrow> real" where
  "meanOrZero vs = (if length vs = 0 then 0 else sum_list vs / real (length vs))"

definition medianOrZero :: "real list \<Rightarrow> real" where
  "medianOrZero vs = (if length vs = 0 then 0 else fst (calculateMedianFloat vs))"

text \<open>
  A PR lies in a period given by its start and end when it is merged, the calendar day of
  its merge timestamp (in that timestamp's Location) lies from the day of the start to the
  day of the end, and, if the merge timestamp has the Location of the start (a fixed
  offset from UTC, as all Locations here), its instant is not before the start and less
  than 24 hours after the end.
\<close>

definition inPeriod :: "Time \<Rightarrow> Time \<Rightarrow> PRMetrics \<Rightarrow> bool" where
  "inPeriod startDate endDate p \<longleftrightarrow>
     \<not> Time_IsZero (MergedAt p)
     \<and> Time_dayNumber startDate \<le> Time_dayNumber (MergedAt p)
     \<and> Time_dayNumber (MergedAt p) \<le> Time_dayNumber endDate
     \<and> (loc_offset (MergedAt p) = loc_offset startDate \<longrightarrow>
          unix_sec startDate \<le> unix_sec (MergedAt p)
          \<and> unix_sec (MergedAt p) < unix_sec endDate + 86400)"

text \<open>The number of days of a month of a year, as \<^verbatim>\<open>daysIn\<close> of the time package.\<close>

definition daysIn :: "int \<Rightarrow> int \<Rightarrow> int" where
  "daysIn m year = (if m = 2 \<and> isLeap year then 29
                    else daysBefore ! nat m - daysBefore ! nat (m - 1))"

text \<open>
  Start and end are the week of the timestamp \<open>t\<close>: the start is the instant 00:00:00 of
  a Monday, the end the instant 00:00:00 of the Sunday six days later in the same
  Location, and both fall in the ISO week of \<open>t\<close>.
\<close>

definition isWeekOf :: "Time \<Rightarrow> Time \<Rightarrow> Time \<Rightarrow> bool" where
  "isWeekOf startDate endDate t \<longleftrightarrow>
     Time_Weekday startDate = 1 \<and> Time_Clock startDate = (0, 0, 0) \<and> nsec startDate = 0
     \<and> Time_Weekday endDate = 0 \<and> Time_Clock endDate = (0, 0, 0) \<and> nsec endDate = 0
     \<and> loc_offset endDate = loc_offset startDate
     \<and> Time_dayNumber endDate = Time_dayNumber startDate + 6
     \<and> Time_ISOWeek startDate = Time_ISOWeek t
     \<and> Time_ISOWeek endDate = Time_ISOWeek t"

text \<open>
  Start and end are the month of the timestamp \<open>t\<close>: the start is the instant 00:00:00
  of the first day, and the end the instant 00:00:00 of the last day, of the year and
  month of \<open>t\<close>, in one Location.
\<close>

definition isMonthOf :: "Time \<Rightarrow> Time \<Rightarrow> Time \<Rightarrow> bool" where
  "isMonthOf startDate endDate t \<longleftrightarrow>
     Time_Clock startDate = (0, 0, 0) \<and> nsec startDate = 0
     \<and> Time_Clock endDate = (0, 0, 0) \<and> nsec endDate = 0
     \<and> loc_offset endDate = loc_offset startDate
     \<and> (case Time_Date t of
           (year, month, day) \<Rightarrow>
             Time_Date startDate = (year, month, 1)
             \<and> Time_Date endDate = (year, month, daysIn month year))"

subsection \<open>Sample metrics\<close>

text \<open>
  A PRMetrics record merged at the given second (UTC) with the given total lifetime, all
  other fields zero; and three such records merged on 2, 3 and 4 January 2024 with
  lifetimes 0, 20 and 30 hours.
\<close>

definition mergedPR :: "int \<Rightarrow> real \<Rightarrow> PRMetrics" where
  "mergedPR s h = zeroPRMetrics\<lparr>MergedAt := utcTime s, TotalPRLifetimeHours := h\<rparr>"


section \<open>Calendar arithmetic\<close>

lemma neg_pred_div:
  fixes lo base :: int
  assumes "0 < base"
  shows "(- lo - 1) div base = - (lo div base) - 1"
proof (rule int_div_pos_eq[where r = "base - lo mod base - 1"])
  have "lo = base * (lo div base) + lo mod base" by simp
  then show "- lo - 1 = base * (- (lo div base) - 1) + (base - lo mod base - 1)"
    by (simp add: algebra_simps)
  show "0 \<le> base - lo mod base - 1" using assms pos_mod_bound[of base lo] by linarith
  show "base - lo mod base - 1 < base" using assms pos_mod_sign[of base lo] by linarith
qed

lemma norm_hi_lo_eq:
  assumes "0 < base"
  shows "norm_hi_lo hi lo base = (hi + lo div base, lo mod base)"
proof -
  have m: "lo mod base < base" "0 \<le> lo mod base" using assms by simp_all
  have e: "lo - lo div base * base = lo mod base" by (simp add: minus_div_mult_eq_mod)
  show ?thesis
  proof (cases "lo < 0")
    case True
    have "lo + ((- lo - 1) div base + 1) * base = lo mod base"
      using e by (simp add: neg_pred_div[OF assms] algebra_simps)
    then show ?thesis using True m
      by (simp add: norm_hi_lo_def Let_def neg_pred_div[OF assms])
  next
    case False
    then show ?thesis using m e
      by (simp add: norm_hi_lo_def Let_def not_less div_pos_pos_trivial mod_pos_pos_trivial)
  qed
qed

lemma daysSinceEpoch_digits:
  assumes "0 \<le> a" "a \<le> 3" "0 \<le> b" "b \<le> 24" "0 \<le> c" "c \<le> 3"
  shows "daysSinceEpoch (400 * q + 100 * a + 4 * b + c + 1) = 146097 * q + 36524 * a + 1461 * b + 365 * c"
proof -
  let ?y = "400 * q + 100 * a + 4 * b + c"
  have q: "?y div 400 = q" using assms by (intro int_div_pos_eq[where r = "100 * a + 4 * b + c"]) auto
  have a: "(100 * a + 4 * b + c) div 100 = a" using assms by (intro int_div_pos_eq[where r = "4 * b + c"]) auto
  have b: "(4 * b + c) div 4 = b" using assms by (intro int_div_pos_eq[where r = "c"]) auto
  have "daysSinceEpoch (?y + 1) =
     (let y = ?y; n400 = y div 400;
          y1 = y - 400 * n400;
          n100 = y1 div 100;
          y2 = y1 - 100 * n100;
          n4 = y2 div 4;
          y3 = y2 - 4 * n4
      in 146097 * n400 + 36524 * n100 + 1461 * n4 + 365 * y3)"
    by (simp add: daysSinceEpoch_def)
  also have "\<dots> = 146097 * q + 36524 * a + 1461 * b + 365 * c"
  proof -
    have z: "(4 * b + c) div 100 = 0" using assms by (intro div_pos_pos_trivial) auto
    show ?thesis unfolding Let_def q by (simp add: a b z)
  qed
  finally show ?thesis .
qed

lemma absYearDay_digits:
  "\<exists>q a b c yd. absYearDay d = (400 * q + 100 * a + 4 * b + c + 1, yd)
      \<and> d = 146097 * q + 36524 * a + 1461 * b + 365 * c + yd
      \<and> 0 \<le> a \<and> a \<le> 3 \<and> 0 \<le> b \<and> b \<le> 24 \<and> 0 \<le> c \<and> c \<le> 3 \<and> 0 \<le> yd \<and> yd \<le> 365
      \<and> (yd = 365 \<longrightarrow> c = 3 \<and> (b = 24 \<longrightarrow> a = 3))"
proof -
  define q where "q = d div 146097"
  define r where "r = d - 146097 * q"
  define n100 where "n100 = r div 36524"
  define a where "a = n100 - n100 div 4"
  define d2 where "d2 = r - 36524 * a"
  define b where "b = d2 div 1461"
  define d3 where "d3 = d2 - 1461 * b"
  define n1 where "n1 = d3 div 365"
  define c where "c = n1 - n1 div 4"
  define yd where "yd = d3 - 365 * c"
  have r: "0 \<le> r" "r < 146097"
    unfolding r_def q_def by (simp_all add: minus_mult_div_eq_mod)
  have n100: "0 \<le> n100" "n100 \<le> 4" "36524 * n100 \<le> r" "r < 36524 * n100 + 36524"
    unfolding n100_def using r by arith+
  have a: "0 \<le> a" "a \<le> 3" "n100 \<le> 3 \<longrightarrow> a = n100" "n100 = 4 \<longrightarrow> a = 3"
    unfolding a_def using n100(1,2) by arith+
  have d2: "0 \<le> d2" "d2 \<le> 36524" "d2 = 36524 \<longrightarrow> a = 3"
    unfolding d2_def using a n100 r by arith+
  have b: "0 \<le> b" "b \<le> 24" "1461 * b \<le> d2" "d2 < 1461 * b + 1461"
    unfolding b_def using d2(1,2) by arith+
  have d3: "0 \<le> d3" "d3 \<le> 1460" "d3 = 1460 \<and> b = 24 \<longrightarrow> a = 3"
    unfolding d3_def using b d2 by arith+
  have n1: "0 \<le> n1" "n1 \<le> 4" "365 * n1 \<le> d3" "d3 < 365 * n1 + 365"
    unfolding n1_def using d3(1,2) by arith+
  have c: "0 \<le> c" "c \<le> 3" "n1 \<le> 3 \<longrightarrow> c = n1" "n1 = 4 \<longrightarrow> c = 3"
    unfolding c_def using n1(1,2) by arith+
  have yd: "0 \<le> yd" "yd \<le> 365" "yd = 365 \<longrightarrow> c = 3 \<and> d3 = 1460"
    unfolding yd_def using c n1 d3 by arith+
  have e: "absYearDay d = (400 * q + 100 * a + 4 * b + c + 1, yd)"
    unfolding absYearDay_def Let_def
    by (simp only: q_def[symmetric] r_def[symmetric] n100_def[symmetric] a_def[symmetric]
        d2_def[symmetric] b_def[symmetric] d3_def[symmetric] n1_def[symmetric] c_def[symmetric]
        yd_def[symmetric])
  have s: "d = 146097 * q + 36524 * a + 1461 * b + 365 * c + yd"
    unfolding yd_def d3_def d2_def r_def by simp
  show ?thesis
    using e s a(1,2) b(1,2) c(1,2) yd d3(3) by blast
qed

lemma mod_eq_0_range:
  fixes x n :: int
  assumes "0 < x" "x \<le> n"
  shows "x mod n = 0 \<longleftrightarrow> x = n"
proof (cases "x = n")
  case True
  then show ?thesis by simp
next
  case False
  then have "x mod n = x" using assms by (simp add: mod_pos_pos_trivial)
  then show ?thesis using assms False by simp
qed

lemma isLeap_digits:
  assumes "0 \<le> a" "a \<le> 3" "0 \<le> b" "b \<le> 24" "0 \<le> c" "c \<le> 3"
  shows "isLeap (400 * q + 100 * a + 4 * b + c + 1) \<longleftrightarrow> c = 3 \<and> (b \<noteq> 24 \<or> a = 3)"
proof -
  let ?y = "400 * q + 100 * a + 4 * b + c + 1"
  have m4: "?y mod 4 = (c + 1) mod 4"
    using mod_mult_self4[of 4 "100 * q + 25 * a + b" "c + 1"] by (simp add: algebra_simps)
  have m100: "?y mod 100 = (4 * b + c + 1) mod 100"
    using mod_mult_self4[of 100 "4 * q + a" "4 * b + c + 1"] by (simp add: algebra_simps)
  have m400: "?y mod 400 = (100 * a + 4 * b + c + 1) mod 400"
    using mod_mult_self4[of 400 "q" "100 * a + 4 * b + c + 1"] by (simp add: algebra_simps)
  have c4: "(c + 1) mod 4 = 0 \<longleftrightarrow> c = 3"
    using mod_eq_0_range[of "c + 1" 4] assms(5,6) by auto
  have c100: "(4 * b + c + 1) mod 100 = 0 \<longleftrightarrow> b = 24 \<and> c = 3"
  proof -
    have "4 * b + c + 1 = 100 \<longleftrightarrow> b = 24 \<and> c = 3" using assms(3-6) by arith
    then show ?thesis using mod_eq_0_range[of "4 * b + c + 1" 100] assms(3-6) by auto
  qed
  have c400: "(100 * a + 4 * b + c + 1) mod 400 = 0 \<longleftrightarrow> a = 3 \<and> b = 24 \<and> c = 3"
  proof -
    have "100 * a + 4 * b + c + 1 = 400 \<longleftrightarrow> a = 3 \<and> b = 24 \<and> c = 3" using assms by arith
    then show ?thesis using mod_eq_0_range[of "100 * a + 4 * b + c + 1" 400] assms by auto
  qed
  show ?thesis
    unfolding isLeap_def m4 m100 m400 c4 c100 c400 by auto
qed

lemma absYearDay_split:
  assumes "absYearDay d = (y, yd)"
  shows "d = daysSinceEpoch y + yd" "0 \<le> yd" "yd < (if isLeap y then 366 else 365)"
proof -
  obtain q a b c yd' where e: "absYearDay d = (400 * q + 100 * a + 4 * b + c + 1, yd')"
      and s: "d = 146097 * q + 36524 * a + 1461 * b + 365 * c + yd'"
      and bd: "0 \<le> a" "a \<le> 3" "0 \<le> b" "b \<le> 24" "0 \<le> c" "c \<le> 3"
      and yd: "0 \<le> yd'" "yd' \<le> 365" "yd' = 365 \<longrightarrow> c = 3 \<and> (b = 24 \<longrightarrow> a = 3)"
    using absYearDay_digits[of d] by blast
  from e assms have y: "y = 400 * q + 100 * a + 4 * b + c + 1" and yy: "yd = yd'" by simp_all
  show "d = daysSinceEpoch y + yd"
    unfolding y yy daysSinceEpoch_digits[OF bd] using s by simp
  show "0 \<le> yd" using yd yy by simp
  have "isLeap y \<longleftrightarrow> c = 3 \<and> (b \<noteq> 24 \<or> a = 3)"
    unfolding y by (rule isLeap_digits[OF bd])
  then show "yd < (if isLeap y then 366 else 365)"
    using yd yy by auto
qed

lemma monthDay_props:
  assumes "0 \<le> yd" "yd < (if isLeap y then 366 else 365)" "monthDay y yd = (m, dd)"
  shows "1 \<le> m \<and> m \<le> 12 \<and> 1 \<le> dd
     \<and> daysBefore ! nat (m - 1) + (if isLeap y \<and> 3 \<le> m then 1 else 0) + (dd - 1) = yd
     \<and> yd < daysBefore ! nat m + (if isLeap y \<and> 2 \<le> m then 1 else 0)"
proof (cases "isLeap y \<and> yd = 59")
  case True
  then show ?thesis using assms by (simp add: monthDay_def daysBefore_def)
next
  case False
  define day where "day = (if isLeap y \<and> yd > 59 then yd - 1 else yd)"
  define k where "k = day div 31"
  have day: "0 \<le> day" "day \<le> 364" using assms(1,2) by (auto simp: day_def split: if_splits)
  have k: "31 * k \<le> day" "day < 31 * k + 31" unfolding k_def by arith+
  have "k = 0 \<or> k = 1 \<or> k = 2 \<or> k = 3 \<or> k = 4 \<or> k = 5 \<or> k = 6 \<or> k = 7 \<or> k = 8 \<or> k = 9
     \<or> k = 10 \<or> k = 11" using k day by arith
  moreover have md: "(m, dd) = (let e = daysBefore ! nat (k + 1) in if day \<ge> e then (k + 2, day - e + 1)
           else (k + 1, day - daysBefore ! nat k + 1))"
    using False assms(3) unfolding monthDay_def Let_def day_def k_def by auto
  ultimately show ?thesis
    using k day False
    by (elim disjE; simp add: daysBefore_def Let_def split: if_splits; simp add: day_def split: if_splits)
qed

lemma year_digits:
  "\<exists>q a b c. y = 400 * q + 100 * a + 4 * b + c + 1
     \<and> 0 \<le> a \<and> a \<le> 3 \<and> 0 \<le> b \<and> b \<le> 24 \<and> 0 \<le> c \<and> c \<le> (3::int)"
proof -
  define q where "q = (y - 1) div 400"
  define r where "r = (y - 1) mod 400"
  define a where "a = r div 100"
  define r2 where "r2 = r mod 100"
  define b where "b = r2 div 4"
  define c where "c = r2 mod 4"
  have r: "0 \<le> r" "r < 400" by (simp_all add: r_def)
  have r2: "0 \<le> r2" "r2 < 100" by (simp_all add: r2_def)
  have "y - 1 = 400 * q + r" by (simp add: q_def r_def)
  moreover have "r = 100 * a + r2" by (simp add: a_def r2_def)
  moreover have "r2 = 4 * b + c" by (simp add: b_def c_def)
  moreover have "0 \<le> a" "a \<le> 3" using r unfolding a_def by arith+
  moreover have "0 \<le> b" "b \<le> 24" using r2 unfolding b_def by arith+
  moreover have "0 \<le> c" "c \<le> 3" unfolding c_def by arith+
  ultimately show ?thesis by (intro exI[of _ q] exI[of _ a] exI[of _ b] exI[of _ c]) simp
qed

lemma daysSinceEpoch_Suc:
  "daysSinceEpoch (y + 1) = daysSinceEpoch y + (if isLeap y then 366 else 365)"
proof -
  obtain q a b c where y: "y = 400 * q + 100 * a + 4 * b + c + 1"
    and bd: "0 \<le> a" "a \<le> 3" "0 \<le> b" "b \<le> 24" "0 \<le> c" "c \<le> 3"
    using year_digits[of y] by blast
  have l: "isLeap y \<longleftrightarrow> c = 3 \<and> (b \<noteq> 24 \<or> a = 3)"
    unfolding y by (rule isLeap_digits[OF bd])
  have d: "daysSinceEpoch y = 146097 * q + 36524 * a + 1461 * b + 365 * c"
    unfolding y by (rule daysSinceEpoch_digits[OF bd])
  consider (c) "c < 3" | (b) "c = 3" "b < 24" | (a) "c = 3" "b = 24" "a < 3"
    | (q) "c = 3" "b = 24" "a = 3"
    using bd by linarith
  then show ?thesis
  proof cases
    case c
    have "daysSinceEpoch (400 * q + 100 * a + 4 * b + (c + 1) + 1)
        = 146097 * q + 36524 * a + 1461 * b + 365 * (c + 1)"
      using bd c by (intro daysSinceEpoch_digits) auto
    then show ?thesis using c l d by (simp add: y algebra_simps)
  next
    case b
    have "daysSinceEpoch (400 * q + 100 * a + 4 * (b + 1) + 0 + 1)
        = 146097 * q + 36524 * a + 1461 * (b + 1) + 365 * 0"
      using bd b by (intro daysSinceEpoch_digits) auto
    then show ?thesis using b l d by (simp add: y algebra_simps)
  next
    case a
    have "daysSinceEpoch (400 * q + 100 * (a + 1) + 4 * 0 + 0 + 1)
        = 146097 * q + 36524 * (a + 1) + 1461 * 0 + 365 * 0"
      using bd a by (intro daysSinceEpoch_digits) auto
    then show ?thesis using a l d by (simp add: y algebra_simps)
  next
    case q
    have "daysSinceEpoch (400 * (q + 1) + 100 * 0 + 4 * 0 + 0 + 1)
        = 146097 * (q + 1) + 36524 * 0 + 1461 * 0 + 365 * 0"
      by (intro daysSinceEpoch_digits) auto
    then show ?thesis using q l d by (simp add: y algebra_simps)
  qed
qed

lemma daysSinceEpoch_mono_step:
  assumes "y < y'"
  shows "daysSinceEpoch y + (if isLeap y then 366 else 365) \<le> daysSinceEpoch y'"
proof -
  have "y + 1 \<le> y'" using assms by simp
  then show ?thesis
  proof (induction y' rule: int_ge_induct)
    case base
    then show ?case by (simp add: daysSinceEpoch_Suc)
  next
    case (step i)
    have "daysSinceEpoch i \<le> daysSinceEpoch (i + 1)" by (simp add: daysSinceEpoch_Suc)
    then show ?case using step by linarith
  qed
qed

lemma year_unique:
  assumes "daysSinceEpoch y + yd = daysSinceEpoch y' + yd'"
    and "0 \<le> yd" "yd < (if isLeap y then 366 else 365)"
    and "0 \<le> yd'" "yd' < (if isLeap y' then 366 else 365)"
  shows "y = y' \<and> yd = yd'"
proof -
  have "\<not> y < y'" using daysSinceEpoch_mono_step[of y y'] assms by (auto split: if_splits)
  moreover have "\<not> y' < y" using daysSinceEpoch_mono_step[of y' y] assms by (auto split: if_splits)
  ultimately have "y = y'" by simp
  then show ?thesis using assms(1) by simp
qed

lemma absYearDay_eq:
  assumes "0 \<le> yd" "yd < (if isLeap y then 366 else 365)"
  shows "absYearDay (daysSinceEpoch y + yd) = (y, yd)"
proof -
  obtain y' yd' where e: "absYearDay (daysSinceEpoch y + yd) = (y', yd')" by fastforce
  from absYearDay_split[OF e] year_unique[of y yd y' yd'] assms
  show ?thesis using e by simp
qed

lemma monthDay_first:
  assumes "1 \<le> m" "m \<le> 12"
  shows "monthDay y (daysBefore ! nat (m - 1) + (if isLeap y \<and> 3 \<le> m then 1 else 0)) = (m, 1)"
proof -
  have "m = 1 \<or> m = 2 \<or> m = 3 \<or> m = 4 \<or> m = 5 \<or> m = 6 \<or> m = 7 \<or> m = 8 \<or> m = 9 \<or> m = 10
     \<or> m = 11 \<or> m = 12" using assms by arith
  then show ?thesis
    by (elim disjE; simp add: monthDay_def daysBefore_def Let_def)
qed

lemma norm_hi_lo_zero: "0 < base \<Longrightarrow> norm_hi_lo hi 0 base = (hi, 0)"
  by (simp add: norm_hi_lo_eq)

lemma time_Date_midnight: "time_Date y m d 0 0 0 0 loc = midnight (dateDays y m d) loc"
  by (simp add: time_Date_def norm_hi_lo_eq midnight_def dateDays_def Let_def)

lemma dateDays_add: "dateDays y m (d + k) = dateDays y m d + k"
  by (simp add: dateDays_def Let_def)

lemma dateDays_month: "1 \<le> m \<Longrightarrow> m \<le> 12 \<Longrightarrow>
  dateDays y m d = daysSinceEpoch y + daysBefore ! nat (m - 1)
         + (if isLeap y \<and> 3 \<le> m then 1 else 0) + (d - 1)"
  by (simp add: dateDays_def Let_def div_pos_pos_trivial mod_pos_pos_trivial)

lemma absDate_props:
  assumes "absDate n = (y, m, d)"
  shows "dateDays y m d = n" "1 \<le> m" "m \<le> 12" "1 \<le> d"
    and "n < dateDays y (m + 1) 1"
proof -
  obtain yd where e: "absYearDay n = (y, yd)" and md: "monthDay y yd = (m, d)"
    using assms by (auto simp: absDate_def Let_def split: prod.splits)
  note s = absYearDay_split[OF e]
  note p = monthDay_props[OF s(2) s(3) md]
  show m: "1 \<le> m" "m \<le> 12" and "1 \<le> d" using p by simp_all
  show "dateDays y m d = n" using p s(1) m by (simp add: dateDays_month)
  show "n < dateDays y (m + 1) 1"
  proof (cases "m = 12")
    case True
    have "dateDays y 13 1 = daysSinceEpoch (y + 1)"
      by (simp add: dateDays_def Let_def daysBefore_def)
    then show ?thesis using True p s by (simp add: daysSinceEpoch_Suc daysBefore_def split: if_splits)
  next
    case False
    then have "dateDays y (m + 1) 1 = daysSinceEpoch y + daysBefore ! nat m
         + (if isLeap y \<and> 2 \<le> m then 1 else 0)"
      using m by (simp add: dateDays_month)
    then show ?thesis using p s(1) by simp
  qed
qed

lemma absDate_dateDays_first:
  assumes "1 \<le> m" "m \<le> 12"
  shows "absDate (dateDays y m 1) = (y, m, 1)"
proof -
  let ?yd = "daysBefore ! nat (m - 1) + (if isLeap y \<and> 3 \<le> m then 1 else 0)"
  have "m = 1 \<or> m = 2 \<or> m = 3 \<or> m = 4 \<or> m = 5 \<or> m = 6 \<or> m = 7 \<or> m = 8 \<or> m = 9 \<or> m = 10
     \<or> m = 11 \<or> m = 12" using assms by arith
  then have b: "0 \<le> ?yd" "?yd < (if isLeap y then 366 else 365)"
    by (elim disjE; simp add: daysBefore_def)+
  have "dateDays y m 1 = daysSinceEpoch y + ?yd" using assms by (simp add: dateDays_month)
  then show ?thesis
    using absYearDay_eq[OF b] monthDay_first[OF assms] by (simp add: absDate_def)
qed

lemma Time_abs_midnight: "Time_abs (midnight n loc) = n * 86400"
  by (simp add: Time_abs_def midnight_def)

lemma Time_Date_midnight: "Time_Date (midnight n loc) = absDate n"
  by (simp add: Time_Date_def Time_abs_midnight)

lemma Time_Clock_midnight: "Time_Clock (midnight n loc) = (0, 0, 0)"
  by (simp add: Time_Clock_def Time_abs_midnight)

lemma midnight_sel [simp]: "nsec (midnight n loc) = 0" "loc_offset (midnight n loc) = loc"
  by (simp_all add: midnight_def)

lemma Time_AddDate_midnight_days:
  "Time_AddDate (midnight n loc) 0 0 k = midnight (n + k) loc"
proof -
  obtain y m d where e: "absDate n = (y, m, d)" by (metis prod_cases3)
  have "Time_AddDate (midnight n loc) 0 0 k = time_Date y m (d + k) 0 0 0 0 loc"
    by (simp add: Time_AddDate_def Time_Date_midnight Time_Clock_midnight e)
  then show ?thesis
    using absDate_props(1)[OF e] by (simp add: time_Date_midnight dateDays_add)
qed

lemma Time_Weekday_days: "Time_Weekday t = (Time_abs t div 86400 + 1) mod 7"
proof -
  define x where "x = Time_abs t + 86400"
  have "x mod (86400 * 7) = 86400 * (x div 86400 mod 7) + x mod 86400"
    by (rule zmod_zmult2_eq) simp
  then have "x mod 604800 div 86400 = x div 86400 mod 7"
    by simp
  moreover have "x div 86400 = Time_abs t div 86400 + 1" by (simp add: x_def)
  ultimately show ?thesis by (simp add: Time_Weekday_def x_def)
qed

section \<open>The median\<close>

lemma calculateMedianFloat_snd: "snd (calculateMedianFloat vs) = sort vs"
  by (cases vs) (simp_all add: calculateMedianFloat_def Let_def)

lemma sort_eq_iff_sorted: "sort vs = vs \<longleftrightarrow> sorted vs"
  by (metis sorted_sort sorted_sort_id)

text \<open>
  Claim C4, as stated: the median computation leaves the caller's collection unchanged
  because it sorts a copy. This fails for \<^verbatim>\<open>calculateMedianFloat\<close>, which sorts the
  slice it is given: after the call on \<open>[2, 1]\<close> the caller's slice is \<open>[1, 2]\<close>.
\<close>

theorem median_frame_counterexample:
  "snd (calculateMedianFloat [2, 1]) \<noteq> [2, 1]"
  by (simp add: calculateMedianFloat_def Let_def)

text \<open>
  Claim C4, amended: \<^verbatim>\<open>calculateMedianInt\<close> leaves the caller's collection unchanged (it
  converts into a fresh slice). \<^verbatim>\<open>calculateMedianFloat\<close> sorts the caller's collection in
  place: after the call it holds the same elements in ascending order, so it is unchanged
  exactly when it was already in ascending order.
\<close>

theorem median_frame:
  "snd (calculateMedianInt ivs) = ivs
   \<and> snd (calculateMedianFloat vs) = sort vs
   \<and> (snd (calculateMedianFloat vs) = vs \<longleftrightarrow> sorted vs)"
  by (simp add: calculateMedianFloat_snd sort_eq_iff_sorted calculateMedianInt_def Let_def)

text \<open>
  Claim C5: the median of the empty collection is 0; for a non-empty collection it is the
  middle element of the ascending sort when the length is odd and the mean of the two
  central elements when it is even; in particular the median of \<open>[x]\<close> is \<open>x\<close>, of
  \<open>[1, 3]\<close> is 2, of \<open>[1, 2, 3]\<close> is 2 and of \<open>[1, 2, 3, 4]\<close> is 2.5; the median of
  integers is the median of the same values read as reals.
\<close>

theorem median_values:
  "fst (calculateMedianFloat []) = 0
   \<and> (vs \<noteq> [] \<and> odd (length vs) \<longrightarrow>
        fst (calculateMedianFloat vs) = sort vs ! (length vs div 2))
   \<and> (vs \<noteq> [] \<and> even (length vs) \<longrightarrow>
        fst (calculateMedianFloat vs)
          = (sort vs ! (length vs div 2 - 1) + sort vs ! (length vs div 2)) / 2)
   \<and> fst (calculateMedianFloat [x]) = x
   \<and> fst (calculateMedianFloat [1, 3]) = 2
   \<and> fst (calculateMedianFloat [1, 2, 3]) = 2
   \<and> fst (calculateMedianFloat [1, 2, 3, 4]) = 5 / 2
   \<and> fst (calculateMedianInt ivs) = fst (calculateMedianFloat (map real_of_int ivs))
   \<and> fst (calculateMedianInt []) = 0
   \<and> fst (calculateMedianInt [1, 2, 3, 4]) = 5 / 2"
proof -
  have odd: "vs \<noteq> [] \<and> odd (length vs) \<longrightarrow>
        fst (calculateMedianFloat vs) = sort vs ! (length vs div 2)"
    by (auto simp: calculateMedianFloat_def Let_def)
  have even: "vs \<noteq> [] \<and> even (length vs) \<longrightarrow>
        fst (calculateMedianFloat vs)
          = (sort vs ! (length vs div 2 - 1) + sort vs ! (length vs div 2)) / 2"
    by (auto simp: calculateMedianFloat_def Let_def)
  have int: "fst (calculateMedianInt ivs) = fst (calculateMedianFloat (map real_of_int ivs))"
    by (cases ivs) (simp_all add: calculateMedianInt_def calculateMedianFloat_def Let_def)
  have ex: "fst (calculateMedianFloat []) = 0" "fst (calculateMedianFloat [x]) = x"
    "fst (calculateMedianFloat [1, 3]) = 2" "fst (calculateMedianFloat [1, 2, 3]) = 2"
    "fst (calculateMedianFloat [1, 2, 3, 4]) = 5 / 2"
    by (simp_all add: calculateMedianFloat_def Let_def)
  have exi: "fst (calculateMedianInt []) = 0" "fst (calculateMedianInt [1, 2, 3, 4]) = 5 / 2"
    by (simp_all add: calculateMedianInt_def calculateMedianFloat_def Let_def)
  show ?thesis using odd even int ex exi by blast
qed

theorem median_values_witness:
  "fst (calculateMedianFloat [9, 4, 7]) = 7
   \<and> fst (calculateMedianFloat [9, 4, 7, 1]) = 11 / 2
   \<and> fst (calculateMedianInt [9, 4, 7, 1]) = 11 / 2"
proof -
  have a: "[9, 4, 7::real] \<noteq> [] \<and> odd (length [9, 4, 7::real])" by simp
  have b: "[9, 4, 7, 1::real] \<noteq> [] \<and> even (length [9, 4, 7, 1::real])" by simp
  have "fst (calculateMedianFloat [9, 4, 7]) = sort [9, 4, 7] ! (length [9, 4, 7::real] div 2)"
    using median_values[of "[9, 4, 7]"] a by blast
  moreover have "fst (calculateMedianFloat [9, 4, 7, 1])
      = (sort [9, 4, 7, 1] ! (length [9, 4, 7, 1::real] div 2 - 1)
         + sort [9, 4, 7, 1] ! (length [9, 4, 7, 1::real] div 2)) / 2"
    using median_values[of "[9, 4, 7, 1]"] b by blast
  moreover have "fst (calculateMedianInt [9, 4, 7, 1])
      = fst (calculateMedianFloat (map real_of_int [9, 4, 7, 1]))"
    using median_values[of _ _ "[9, 4, 7, 1]"] by blast
  ultimately show ?thesis by simp
qed

section \<open>Per-PR metrics\<close>

lemmas sample_defs = sampleClient_def samplePR_def sampleCommit_def utcTime_def

lemma foldl_count_commits:
  "foldl (\<lambda>n commit. case commitDate commit of
             Some commitTime \<Rightarrow> if \<not> Time_Before commitTime createdAt then n + 1 else n
           | None \<Rightarrow> n) n0 commits
   = n0 + int (length (filter (\<lambda>commit. case commitDate commit of
             Some commitTime \<Rightarrow> \<not> Time_Before commitTime createdAt | None \<Rightarrow> False) commits))"
  by (induction commits arbitrary: n0) (auto split: option.splits)

lemma calculateCommitMetrics_counts:
  "cm_CommitCount (calculateCommitMetrics commits createdAt) = int (length commits)"
  "cm_CommitCountDuringPR (calculateCommitMetrics commits createdAt)
     = int (length (filter (\<lambda>commit. case commitDate commit of
             Some commitTime \<Rightarrow> \<not> Time_Before commitTime createdAt | None \<Rightarrow> False) commits))"
  by (auto simp: calculateCommitMetrics_def Let_def foldl_count_commits split: option.splits)


lemma CalculatePRMetrics_commit_fields:
  assumes "snd (CalculatePRMetrics c owner repo pr) = Inr m"
  shows "\<exists>commits. GetPRCommits c owner repo (pr_Number pr) = Inr commits
     \<and> CommitCount m = cm_CommitCount (calculateCommitMetrics commits (pr_CreatedAt pr))
     \<and> CommitCountDuringPR m = cm_CommitCountDuringPR (calculateCommitMetrics commits (pr_CreatedAt pr))"
  using assms
  by (auto simp: CalculatePRMetrics_def calculatePRDetails_def Let_def split: sum.splits prod.splits option.splits if_splits)



lemma CalculatePRMetrics_gaps:
  assumes "GetPRDetails c owner repo (pr_Number pr) = Inr d"
      and "GetPRCommits c owner repo (pr_Number pr) = Inr commits"
      and "GetPRComments c owner repo (pr_Number pr) = Inr comments"
      and "commits \<noteq> []" "comments \<noteq> []"
  shows "\<exists>m. snd (CalculatePRMetrics c owner repo pr) = Inr m
     \<and> MaxNoActivityPeriodHours m = wp_MaxNoActivityPeriodHours (calculateWaitingPeriods commits comments)
     \<and> MaxNoCommentPeriodHours m = wp_MaxNoCommentPeriodHours (calculateWaitingPeriods commits comments)
     \<and> MaxNoCommitPeriodHours m = wp_MaxNoCommitPeriodHours (calculateWaitingPeriods commits comments)"
  using assms
  by (auto simp: CalculatePRMetrics_def calculatePRDetails_def Let_def
      split: sum.splits prod.splits option.splits)

lemma sortTimes_small [simp]: "sortTimes [] = []" "sortTimes [t] = [t]"
  by (simp_all add: sortTimes_def)

lemma sortTimes_two:
  "sortTimes [t, u] = (if Time_Before u t then [u, t] else [t, u])"
  by (auto simp: sortTimes_def Time_Before_def)

lemma calculateWaitingPeriods_single:
  "calculateWaitingPeriods [commit] [comment] =
     \<lparr>wp_MaxNoActivityPeriodHours =
        (case commitDate commit of
           None \<Rightarrow> 0
         | Some t \<Rightarrow>
             if Time_Before (comment_CreatedAt comment) t
             then max 0 (Duration_Hours (Time_Sub t (comment_CreatedAt comment)))
             else max 0 (Duration_Hours (Time_Sub (comment_CreatedAt comment) t))),
      wp_MaxNoCommentPeriodHours = 0, wp_MaxNoCommitPeriodHours = 0\<rparr>"
  by (cases "commitDate commit")
     (auto simp: calculateWaitingPeriods_def List.map_filter_def sortTimes_two Let_def)






text \<open>
  Claim C9: for every commit list and creation timestamp, \<open>CommitCountDuringPR \<le> CommitCount\<close>,
  where \<open>CommitCount\<close> is the size of the commit list and \<open>CommitCountDuringPR\<close> counts
  the commits whose timestamp is not before the creation timestamp; the same holds of
  every PRMetrics the calculator returns.
\<close>

theorem commits_during_pr_le:
  "cm_CommitCount (calculateCommitMetrics commits createdAt) = int (length commits)
   \<and> cm_CommitCountDuringPR (calculateCommitMetrics commits createdAt)
       = int (length (filter (\<lambda>commit. case commitDate commit of
             Some commitTime \<Rightarrow> \<not> Time_Before commitTime createdAt | None \<Rightarrow> False) commits))
   \<and> cm_CommitCountDuringPR (calculateCommitMetrics commits createdAt)
       \<le> cm_CommitCount (calculateCommitMetrics commits createdAt)
   \<and> (snd (CalculatePRMetrics c owner repo pr) = Inr m \<longrightarrow> CommitCountDuringPR m \<le> CommitCount m)"
proof -
  have le: "cm_CommitCountDuringPR (calculateCommitMetrics cs t)
       \<le> cm_CommitCount (calculateCommitMetrics cs t)" for cs t
    by (simp add: calculateCommitMetrics_counts)
  have "CommitCountDuringPR m \<le> CommitCount m" if "snd (CalculatePRMetrics c owner repo pr) = Inr m"
    using CalculatePRMetrics_commit_fields[OF that] le by auto
  then show ?thesis
    using le[of commits createdAt] by (simp add: calculateCommitMetrics_counts)
qed

theorem commits_during_pr_le_witness:
  "\<exists>m. snd (CalculatePRMetrics sampleClient ''o'' ''r'' (samplePR 5)) = Inr m
     \<and> CommitCount m = 2 \<and> CommitCountDuringPR m = 1 \<and> CommitCountDuringPR m \<le> CommitCount m"
proof -
  have "case snd (CalculatePRMetrics sampleClient ''o'' ''r'' (samplePR 5)) of
          Inr m \<Rightarrow> CommitCount m = 2 \<and> CommitCountDuringPR m = 1 | Inl e \<Rightarrow> False"
    by code_simp
  then obtain m where m: "snd (CalculatePRMetrics sampleClient ''o'' ''r'' (samplePR 5)) = Inr m"
    "CommitCount m = 2" "CommitCountDuringPR m = 1"
    by (auto split: sum.splits)
  have "CommitCountDuringPR m \<le> CommitCount m"
    using commits_during_pr_le[of _ _ sampleClient "''o''" "''r''" "samplePR 5" m] m(1) by blast
  then show ?thesis using m by blast
qed

text \<open>
  Claim C2, as stated: a PR with exactly one commit and exactly one comment has all three
  gap fields equal to 0. This fails for \<open>MaxNoActivityPeriodHours\<close>: PR 1 of the sample
  client has one commit and one comment an hour apart, and the field is 1.
\<close>

theorem gaps_counterexample:
  "GetPRCommits sampleClient ''o'' ''r'' (pr_Number (samplePR 1)) = Inr [sampleCommit 0]
   \<and> GetPRComments sampleClient ''o'' ''r'' (pr_Number (samplePR 1))
       = Inr [\<lparr>comment_CreatedAt = utcTime 3600\<rparr>]
   \<and> (case snd (CalculatePRMetrics sampleClient ''o'' ''r'' (samplePR 1)) of
         Inr m \<Rightarrow> MaxNoActivityPeriodHours m = 1 \<and> MaxNoActivityPeriodHours m \<noteq> 0
       | Inl e \<Rightarrow> False)"
  by code_simp

text \<open>
  Claim C2, amended: for a PR whose commit list and comment list have exactly one element
  each, \<open>MaxNoCommentPeriodHours\<close> and \<open>MaxNoCommitPeriodHours\<close> are 0, and
  \<open>MaxNoActivityPeriodHours\<close> is the time in hours from the earlier to the later of the
  commit's author date and the comment's creation time (never negative), which is 0 when
  the commit has no author date.
\<close>

theorem single_commit_single_comment_gaps:
  assumes "GetPRDetails c owner repo (pr_Number pr) = Inr d"
      and "GetPRCommits c owner repo (pr_Number pr) = Inr [commit]"
      and "GetPRComments c owner repo (pr_Number pr) = Inr [comment]"
  shows "\<exists>m. snd (CalculatePRMetrics c owner repo pr) = Inr m
     \<and> MaxNoCommentPeriodHours m = 0 \<and> MaxNoCommitPeriodHours m = 0
     \<and> MaxNoActivityPeriodHours m =
         (case commitDate commit of
            None \<Rightarrow> 0
          | Some t \<Rightarrow>
              if Time_Before (comment_CreatedAt comment) t
              then max 0 (Duration_Hours (Time_Sub t (comment_CreatedAt comment)))
              else max 0 (Duration_Hours (Time_Sub (comment_CreatedAt comment) t)))"
proof -
  obtain m where m: "snd (CalculatePRMetrics c owner repo pr) = Inr m"
    "MaxNoActivityPeriodHours m
       = wp_MaxNoActivityPeriodHours (calculateWaitingPeriods [commit] [comment])"
    "MaxNoCommentPeriodHours m
       = wp_MaxNoCommentPeriodHours (calculateWaitingPeriods [commit] [comment])"
    "MaxNoCommitPeriodHours m
       = wp_MaxNoCommitPeriodHours (calculateWaitingPeriods [commit] [comment])"
    using CalculatePRMetrics_gaps[OF assms] by auto
  show ?thesis
    by (rule exI[of _ m]) (simp add: m calculateWaitingPeriods_single)
qed

theorem single_commit_single_comment_gaps_witness:
  "\<exists>m. snd (CalculatePRMetrics sampleClient ''o'' ''r'' (samplePR 1)) = Inr m
     \<and> MaxNoCommentPeriodHours m = 0 \<and> MaxNoCommitPeriodHours m = 0
     \<and> MaxNoActivityPeriodHours m = 1"
proof -
  have d: "GetPRDetails sampleClient ''o'' ''r'' (pr_Number (samplePR 1)) = Inr (samplePR 1)"
    by (simp add: sample_defs)
  have cs: "GetPRCommits sampleClient ''o'' ''r'' (pr_Number (samplePR 1)) = Inr [sampleCommit 0]"
    by (simp add: sample_defs)
  have cm: "GetPRComments sampleClient ''o'' ''r'' (pr_Number (samplePR 1))
      = Inr [\<lparr>comment_CreatedAt = utcTime 3600\<rparr>]"
    by (simp add: sample_defs)
  have v: "(case commitDate (sampleCommit 0) of
            None \<Rightarrow> 0
          | Some t \<Rightarrow>
              if Time_Before (comment_CreatedAt \<lparr>comment_CreatedAt = utcTime 3600\<rparr>) t
              then max 0 (Duration_Hours (Time_Sub t (comment_CreatedAt \<lparr>comment_CreatedAt = utcTime 3600\<rparr>)))
              else max 0 (Duration_Hours (Time_Sub (comment_CreatedAt \<lparr>comment_CreatedAt = utcTime 3600\<rparr>) t))) = 1"
    by (simp add: sample_defs commitDate_def Time_Before_def Time_Sub_def Duration_Hours_def
        minDuration_def maxDuration_def)
  show ?thesis
    using single_commit_single_comment_gaps[OF d cs cm] unfolding v .
qed



section \<open>Aggregation\<close>

lemma lookupPRs_update_new:
  "AList.update k (lookupPRs (AList.update k [] al) k @ [pr]) (AList.update k [] al)
     = AList.update k [pr] al"
  by (simp add: lookupPRs_def AList.update_conv')

lemma periodPRs_addToPeriod:
  "periodPRs (addToPeriod k s e pr st)
     = AList.update k (lookupPRs (periodPRs st) k @ [pr]) (periodPRs st)"
proof (cases "map_of (periodPRs st) k")
  case None
  then show ?thesis
    by (simp add: addToPeriod_def lookupPRs_def AList.update_conv')
next
  case (Some ps)
  then show ?thesis
    by (simp add: addToPeriod_def)
qed

lemma periodStartDates_addToPeriod:
  "periodStartDates (addToPeriod k s e pr st)
     = (if map_of (periodPRs st) k = None then AList.update k s (periodStartDates st)
        else periodStartDates st)"
  by (simp add: addToPeriod_def Let_def)

lemma periodEndDates_addToPeriod:
  "periodEndDates (addToPeriod k s e pr st)
     = (if map_of (periodPRs st) k = None then AList.update k e (periodEndDates st)
        else periodEndDates st)"
  by (simp add: addToPeriod_def Let_def)

lemma weeklyStep_periodStep: "weeklyStep = periodStep weekKeyOf getStartOfISOWeek weekEnd"
  by (intro ext)
     (simp add: weeklyStep_def periodStep_def weekEnd_def weekKeyOf_def Let_def split: prod.splits)

lemma monthlyStep_periodStep: "monthlyStep = periodStep monthKeyOf monthStart monthEnd"
  by (intro ext)
     (simp add: monthlyStep_def periodStep_def monthEnd_def monthStart_def monthKeyOf_def Let_def
        split: prod.splits)

lemma bucketsOk_empty: "bucketsOk K S E emptyMaps"
  by (simp add: bucketsOk_def emptyMaps_def)

lemma bucketsOkD:
  assumes "bucketsOk K S E st" "map_of (periodPRs st) k = Some ps"
  shows "ps \<noteq> []"
    and "\<And>p. p \<in> set ps \<Longrightarrow> \<not> Time_IsZero (MergedAt p)"
    and "\<And>p. p \<in> set ps \<Longrightarrow> K (MergedAt p) = k"
    and "map_of (periodStartDates st) k = Some (S (MergedAt (hd ps)))"
    and "map_of (periodEndDates st) k = Some (E (MergedAt (hd ps)))"
    and "distinct (map fst (periodPRs st))"
  using assms unfolding bucketsOk_def by auto

lemma bucketsOk_step:
  assumes "bucketsOk K S E st"
  shows "bucketsOk K S E (periodStep K S E st pr)"
proof (cases "Time_IsZero (MergedAt pr)")
  case True
  then show ?thesis using assms by (simp add: periodStep_def)
next
  case False
  let ?k = "K (MergedAt pr)"
  let ?st = "addToPeriod ?k (S (MergedAt pr)) (E (MergedAt pr)) pr st"
  have d0: "distinct (map fst (periodPRs st))"
    using assms by (simp add: bucketsOk_def)
  have d: "distinct (map fst (periodPRs ?st))"
    using d0 by (simp add: periodPRs_addToPeriod AList.distinct_update)
  have b: "ps \<noteq> []
           \<and> (\<forall>p \<in> set ps. \<not> Time_IsZero (MergedAt p) \<and> K (MergedAt p) = k)
           \<and> map_of (periodStartDates ?st) k = Some (S (MergedAt (hd ps)))
           \<and> map_of (periodEndDates ?st) k = Some (E (MergedAt (hd ps)))"
    if m: "map_of (periodPRs ?st) k = Some ps" for k ps
  proof (cases "k = ?k")
    case k: True
    show ?thesis
    proof (cases "map_of (periodPRs st) ?k")
      case None
      have "ps = [pr]"
        using m k None by (simp add: periodPRs_addToPeriod AList.update_conv' lookupPRs_def)
      moreover have "map_of (periodStartDates ?st) k = Some (S (MergedAt pr))"
        using None k by (simp add: periodStartDates_addToPeriod AList.update_conv')
      moreover have "map_of (periodEndDates ?st) k = Some (E (MergedAt pr))"
        using None k by (simp add: periodEndDates_addToPeriod AList.update_conv')
      ultimately show ?thesis
        using False k by simp
    next
      case (Some qs)
      have ps: "ps = qs @ [pr]"
        using m k Some by (simp add: periodPRs_addToPeriod AList.update_conv' lookupPRs_def)
      note q = bucketsOkD[OF assms Some]
      have "map_of (periodStartDates ?st) k = Some (S (MergedAt (hd qs)))"
        using Some k q(4) by (simp add: periodStartDates_addToPeriod)
      moreover have "map_of (periodEndDates ?st) k = Some (E (MergedAt (hd qs)))"
        using Some k q(5) by (simp add: periodEndDates_addToPeriod)
      moreover have "hd ps = hd qs" using q(1) ps by simp
      moreover have "\<forall>p \<in> set ps. \<not> Time_IsZero (MergedAt p) \<and> K (MergedAt p) = k"
        using q(2,3) False k ps by auto
      ultimately show ?thesis using ps by simp
    qed
  next
    case k: False
    then have o: "map_of (periodPRs st) k = Some ps"
      using m by (simp add: periodPRs_addToPeriod AList.update_conv')
    note q = bucketsOkD[OF assms o]
    have "map_of (periodStartDates ?st) k = Some (S (MergedAt (hd ps)))"
      using k q(4) by (simp add: periodStartDates_addToPeriod AList.update_conv')
    moreover have "map_of (periodEndDates ?st) k = Some (E (MergedAt (hd ps)))"
      using k q(5) by (simp add: periodEndDates_addToPeriod AList.update_conv')
    ultimately show ?thesis using q(1,2,3) by simp
  qed
  have "bucketsOk K S E ?st"
    unfolding bucketsOk_def using d b by blast
  then show ?thesis
    using False by (simp add: periodStep_def)
qed

lemma bucketsOk_foldl:
  "bucketsOk K S E st \<Longrightarrow> bucketsOk K S E (foldl (periodStep K S E) st prs)"
  by (induction prs arbitrary: st) (simp_all add: bucketsOk_step)

lemma bucketsOk_weekly: "bucketsOk weekKeyOf getStartOfISOWeek weekEnd (weeklyGroups prs)"
  by (simp add: weeklyGroups_def weeklyStep_periodStep bucketsOk_foldl bucketsOk_empty)

lemma bucketsOk_monthly: "bucketsOk monthKeyOf monthStart monthEnd (monthlyGroups prs)"
  by (simp add: monthlyGroups_def monthlyStep_periodStep bucketsOk_foldl bucketsOk_empty)

lemma sum_list_map_update:
  fixes g :: "'k \<times> 'v \<Rightarrow> int"
  assumes "distinct (map fst al)"
  shows "sum_list (map g (AList.update k v al))
     = sum_list (map g al) - (case map_of al k of None \<Rightarrow> 0 | Some w \<Rightarrow> g (k, w)) + g (k, v)"
  using assms
proof (induction al)
  case Nil
  then show ?case by simp
next
  case (Cons p al)
  obtain k' w where p: "p = (k', w)" by fastforce
  show ?case
  proof (cases "k' = k")
    case True
    then have "map_of al k = None" using Cons.prems p
      by (simp add: map_of_eq_None_iff)
    then show ?thesis using True p by simp
  next
    case False
    then show ?thesis using Cons p by simp
  qed
qed

lemma bucketTotal_step:
  assumes "distinct (map fst (periodPRs st))"
  shows "bucketTotal (periodStep K S E st pr)
     = bucketTotal st + (if Time_IsZero (MergedAt pr) then 0 else 1)"
proof (cases "Time_IsZero (MergedAt pr)")
  case True
  then show ?thesis by (simp add: periodStep_def)
next
  case False
  show ?thesis
    using False sum_list_map_update[OF assms, of "\<lambda>(k, ps). int (length ps)" "K (MergedAt pr)"
        "lookupPRs (periodPRs st) (K (MergedAt pr)) @ [pr]"]
    by (simp add: periodStep_def bucketTotal_def periodPRs_addToPeriod lookupPRs_def
        split: option.splits)
qed

lemma bucketTotal_foldl:
  assumes "bucketsOk K S E st"
  shows "bucketTotal (foldl (periodStep K S E) st prs)
     = bucketTotal st + int (length (filter (\<lambda>p. \<not> Time_IsZero (MergedAt p)) prs))"
  using assms
proof (induction prs arbitrary: st)
  case Nil
  then show ?case by simp
next
  case (Cons p prs)
  have d: "distinct (map fst (periodPRs st))" using Cons.prems by (simp add: bucketsOk_def)
  show ?case
    using Cons.IH[OF bucketsOk_step[OF Cons.prems, of p]] bucketTotal_step[OF d, of K S E p]
    by simp
qed

lemma bucketTotal_empty: "bucketTotal emptyMaps = 0"
  by (simp add: bucketTotal_def emptyMaps_def)

lemma PRCount_calculateAggregatedMetrics:
  "PRCount (calculateAggregatedMetrics period s e prs) = int (length prs)"
  by (simp add: calculateAggregatedMetrics_def Let_def)

lemma sum_list_map_insort_key:
  fixes g :: "'a \<Rightarrow> int"
  shows "sum_list (map g (insort_key f x xs)) = g x + sum_list (map g xs)"
  by (induction xs) simp_all

lemma sum_list_map_sort_key:
  fixes g :: "'a \<Rightarrow> int"
  shows "sum_list (map g (sort_key f xs)) = sum_list (map g xs)"
  by (induction xs) (simp_all add: sum_list_map_insort_key)

lemma sum_PRCount_aggregateGroups:
  "sum_list (map PRCount (aggregateGroups st)) = bucketTotal st"
proof -
  have "PRCount \<circ> (\<lambda>(key, prs). calculateAggregatedMetrics key
            (lookupTime (periodStartDates st) key) (lookupTime (periodEndDates st) key) prs)
          = (\<lambda>(k, ps). int (length ps))"
    by (auto simp: fun_eq_iff PRCount_calculateAggregatedMetrics)
  then show ?thesis
    by (simp add: aggregateGroups_def bucketTotal_def sum_list_map_sort_key)
qed

lemma bucketsOk_distinct: "bucketsOk K S E st \<Longrightarrow> distinct (map fst (periodPRs st))"
  by (simp add: bucketsOk_def)

lemma bucketsOk_mem:
  assumes "bucketsOk K S E st" "(k, ps) \<in> set (periodPRs st)"
  shows "map_of (periodPRs st) k = Some ps"
  using bucketsOk_distinct[OF assms(1)] assms(2) by simp

lemma aggregateGroups_PRCount_pos:
  assumes "bucketsOk K S E st" "a \<in> set (aggregateGroups st)"
  shows "1 \<le> PRCount a"
proof -
  from assms(2) obtain k ps where kp: "(k, ps) \<in> set (periodPRs st)"
    and a: "a = calculateAggregatedMetrics k (lookupTime (periodStartDates st) k)
                  (lookupTime (periodEndDates st) k) ps"
    by (auto simp: aggregateGroups_def)
  have "ps \<noteq> []" using bucketsOkD(1)[OF assms(1) bucketsOk_mem[OF assms(1) kp]] .
  then show ?thesis
    by (cases ps) (simp_all add: a PRCount_calculateAggregatedMetrics)
qed

lemma bucket_nonempty:
  assumes "bucketsOk K S E st" "b \<in> set (periodPRs st)"
  shows "snd b \<noteq> []"
proof -
  have "(fst b, snd b) \<in> set (periodPRs st)" using assms(2) by simp
  from bucketsOkD(1)[OF assms(1) bucketsOk_mem[OF assms(1) this]] show ?thesis .
qed

lemma weekly_total:
  "bucketTotal (weeklyGroups prMetrics)
     = int (length (filter (\<lambda>p. \<not> Time_IsZero (MergedAt p)) prMetrics))"
  unfolding weeklyGroups_def weeklyStep_periodStep
  by (simp add: bucketTotal_foldl[OF bucketsOk_empty] bucketTotal_empty)

lemma monthly_total:
  "bucketTotal (monthlyGroups prMetrics)
     = int (length (filter (\<lambda>p. \<not> Time_IsZero (MergedAt p)) prMetrics))"
  unfolding monthlyGroups_def monthlyStep_periodStep
  by (simp add: bucketTotal_foldl[OF bucketsOk_empty] bucketTotal_empty)

text \<open>
  Claim C7: the sum of \<open>PRCount\<close> over the weekly aggregation equals the sum of
  \<open>PRCount\<close> over the monthly aggregation, and both equal the number of input PRs with
  a non-zero merge timestamp.
\<close>

theorem prcount_sums:
  "sum_list (map PRCount (CalculateWeeklyAggregatedMetrics prMetrics))
     = int (length (filter (\<lambda>p. \<not> Time_IsZero (MergedAt p)) prMetrics))
   \<and> sum_list (map PRCount (CalculateMonthlyAggregatedMetrics prMetrics))
     = int (length (filter (\<lambda>p. \<not> Time_IsZero (MergedAt p)) prMetrics))
   \<and> sum_list (map PRCount (CalculateWeeklyAggregatedMetrics prMetrics))
     = sum_list (map PRCount (CalculateMonthlyAggregatedMetrics prMetrics))"
  unfolding CalculateWeeklyAggregatedMetrics_def CalculateMonthlyAggregatedMetrics_def
    sum_PRCount_aggregateGroups weekly_total monthly_total
  by simp

text \<open>
  Claim C10: every record returned by the weekly or the monthly aggregation has
  \<open>PRCount \<ge> 1\<close>: no bucket of either grouping is empty, so the summarizer is never
  called on an empty bucket by the entry points.
\<close>

theorem no_empty_bucket:
  "(\<forall>a \<in> set (CalculateWeeklyAggregatedMetrics prMetrics). 1 \<le> PRCount a)
   \<and> (\<forall>a \<in> set (CalculateMonthlyAggregatedMetrics prMetrics). 1 \<le> PRCount a)
   \<and> (\<forall>b \<in> set (periodPRs (weeklyGroups prMetrics)). snd b \<noteq> [])
   \<and> (\<forall>b \<in> set (periodPRs (monthlyGroups prMetrics)). snd b \<noteq> [])"
  unfolding CalculateWeeklyAggregatedMetrics_def CalculateMonthlyAggregatedMetrics_def
  using aggregateGroups_PRCount_pos[OF bucketsOk_weekly]
    aggregateGroups_PRCount_pos[OF bucketsOk_monthly]
    bucket_nonempty[OF bucketsOk_weekly] bucket_nonempty[OF bucketsOk_monthly]
  by blast





lemma mean_median_empty [simp]:
  "meanOrZero (positiveValues f []) = 0" "medianOrZero (positiveValues f []) = 0"
  by (simp_all add: meanOrZero_def medianOrZero_def positiveValues_def)




lemma aggregateGroups_eq_Nil: "aggregateGroups st = [] \<longleftrightarrow> periodPRs st = []"
  by (cases "periodPRs st") (auto simp: aggregateGroups_def dest: arg_cong[where f = length])

lemma periodStep_single:
  assumes "\<not> Time_IsZero (MergedAt p)"
  shows "periodPRs (foldl (periodStep K S E) emptyMaps [p]) = [(K (MergedAt p), [p])]"
  using assms by (simp add: periodStep_def periodPRs_addToPeriod emptyMaps_def lookupPRs_def)

lemma mergedPR_merged: "\<not> Time_IsZero (MergedAt (mergedPR 1704153600 h))"
  by (simp add: mergedPR_def utcTime_def Time_IsZero_def unixToYear1_def)

theorem no_empty_bucket_witness:
  "CalculateWeeklyAggregatedMetrics [mergedPR 1704153600 0] \<noteq> []
   \<and> 1 \<le> PRCount (hd (CalculateWeeklyAggregatedMetrics [mergedPR 1704153600 0]))
   \<and> CalculateMonthlyAggregatedMetrics [mergedPR 1704153600 0] \<noteq> []
   \<and> 1 \<le> PRCount (hd (CalculateMonthlyAggregatedMetrics [mergedPR 1704153600 0]))
   \<and> periodPRs (weeklyGroups [mergedPR 1704153600 0]) \<noteq> []
   \<and> snd (hd (periodPRs (weeklyGroups [mergedPR 1704153600 0]))) \<noteq> []
   \<and> periodPRs (monthlyGroups [mergedPR 1704153600 0]) \<noteq> []
   \<and> snd (hd (periodPRs (monthlyGroups [mergedPR 1704153600 0]))) \<noteq> []"
proof -
  let ?ps = "[mergedPR 1704153600 0]"
  have g: "periodPRs (weeklyGroups ?ps) \<noteq> []" "periodPRs (monthlyGroups ?ps) \<noteq> []"
    unfolding weeklyGroups_def monthlyGroups_def weeklyStep_periodStep monthlyStep_periodStep
    by (simp_all only: periodStep_single[OF mergedPR_merged] list.distinct not_False_eq_True)
  then have ne: "CalculateWeeklyAggregatedMetrics ?ps \<noteq> []"
    "CalculateMonthlyAggregatedMetrics ?ps \<noteq> []"
    by (simp_all add: CalculateWeeklyAggregatedMetrics_def CalculateMonthlyAggregatedMetrics_def
        aggregateGroups_eq_Nil)
  have "hd (CalculateWeeklyAggregatedMetrics ?ps) \<in> set (CalculateWeeklyAggregatedMetrics ?ps)"
    "hd (CalculateMonthlyAggregatedMetrics ?ps) \<in> set (CalculateMonthlyAggregatedMetrics ?ps)"
    "hd (periodPRs (weeklyGroups ?ps)) \<in> set (periodPRs (weeklyGroups ?ps))"
    "hd (periodPRs (monthlyGroups ?ps)) \<in> set (periodPRs (monthlyGroups ?ps))"
    using ne g by simp_all
  then show ?thesis
    using no_empty_bucket[of ?ps] ne g by blast
qed

text \<open>
  The records the second loop returns are sorted by period and their periods are
  pairwise different, so any arrangement of the same records that is sorted by period is
  the returned list: the order of ranging over the map and the choice of sorting
  algorithm do not show in the result.
\<close>

lemma Period_calculateAggregatedMetrics:
  "Period (calculateAggregatedMetrics period s e prs) = period"
  by (simp add: calculateAggregatedMetrics_def Let_def)

lemma aggregateGroups_periods:
  assumes "distinct (map fst (periodPRs st))"
  shows "sorted (map Period (aggregateGroups st))"
    and "distinct (map Period (aggregateGroups st))"
proof -
  define zs where "zs = map (\<lambda>(key, prs). calculateAggregatedMetrics key
            (lookupTime (periodStartDates st) key) (lookupTime (periodEndDates st) key) prs)
          (periodPRs st)"
  have a: "aggregateGroups st = sort_key Period zs"
    by (simp add: aggregateGroups_def zs_def)
  have "map Period zs = map fst (periodPRs st)"
    by (simp add: zs_def Period_calculateAggregatedMetrics split_def)
  then have "distinct (map Period zs)" using assms by simp
  then have "distinct zs" "inj_on Period (set zs)" by (simp_all add: distinct_map)
  then show "distinct (map Period (aggregateGroups st))"
    by (simp add: a distinct_map)
  show "sorted (map Period (aggregateGroups st))"
    by (simp add: a)
qed

lemma aggregateGroups_unique:
  assumes d: "distinct (map fst (periodPRs st))"
    and s: "set ys = set (aggregateGroups st)"
    and l: "length ys = length (aggregateGroups st)"
    and o: "sorted (map Period ys)"
  shows "ys = aggregateGroups st"
proof (rule map_sorted_distinct_set_unique[where f = Period])
  note da = aggregateGroups_periods[OF d]
  have inj: "inj_on Period (set (aggregateGroups st))"
    using da(2) by (simp add: distinct_map)
  then show "inj_on Period (set ys \<union> set (aggregateGroups st))" using s by simp
  show "sorted (map Period ys)" by (rule o)
  show "sorted (map Period (aggregateGroups st))" by (rule da(1))
  show "distinct (map Period (aggregateGroups st))" by (rule da(2))
  have "distinct (aggregateGroups st)" using da(2) by (simp add: distinct_map)
  then have "card (set ys) = length ys" using s l by (simp add: distinct_card)
  then have "distinct ys" by (rule card_distinct)
  then show "distinct (map Period ys)" using inj s by (simp add: distinct_map)
  show "set ys = set (aggregateGroups st)" by (rule s)
qed

section \<open>Period keys\<close>

lemma digit_char_inj:
  assumes "a < 10" "b < 10" "''0123456789'' ! a = ''0123456789'' ! b"
  shows "a = b"
proof -
  have "distinct ''0123456789''" by simp
  moreover have "a < length ''0123456789''" "b < length ''0123456789''" using assms by simp_all
  ultimately show ?thesis using assms(3) nth_eq_iff_index_eq by blast
qed

lemma digit_char_mem: "a < 10 \<Longrightarrow> ''0123456789'' ! a \<in> set ''0123456789''"
  by (rule nth_mem) simp

lemma digits_nonempty: "digits n \<noteq> []"
  by (subst digits.simps) simp

lemma digits_chars: "set (digits n) \<subseteq> set ''0123456789''"
proof (induction n rule: digits.induct)
  case (1 n)
  show ?case
  proof (cases "n < 10")
    case True
    then show ?thesis using digit_char_mem[of n] by (subst digits.simps) simp
  next
    case False
    have "n mod 10 < 10" by simp
    then show ?thesis
      using False 1 digit_char_mem[of "n mod 10"] by (subst digits.simps) simp
  qed
qed

lemma digits_inj: "digits n = digits m \<Longrightarrow> n = m"
proof (induction n arbitrary: m rule: digits.induct)
  case (1 n)
  show ?case
  proof (cases "n < 10")
    case n: True
    show ?thesis
    proof (cases "m < 10")
      case True
      then show ?thesis using n "1.prems" digit_char_inj[of n m]
        by (simp add: digits.simps[of n] digits.simps[of m])
    next
      case False
      then have "length (digits m) \<ge> 2"
        using digits_nonempty[of "m div 10"]
        by (subst digits.simps) (simp add: Suc_le_eq)
      moreover have "length (digits n) = 1" using n by (subst digits.simps) simp
      ultimately show ?thesis using "1.prems" by simp
    qed
  next
    case n: False
    show ?thesis
    proof (cases "m < 10")
      case True
      have "length (digits n) \<ge> 2"
        using n digits_nonempty[of "n div 10"]
        by (subst digits.simps) (simp add: Suc_le_eq)
      moreover have "length (digits m) = 1" using True by (subst digits.simps) simp
      ultimately show ?thesis using "1.prems" by simp
    next
      case False
      have e: "digits (n div 10) @ [''0123456789'' ! (n mod 10)]
          = digits (m div 10) @ [''0123456789'' ! (m mod 10)]"
        using "1.prems" n False by (simp add: digits.simps[of n] digits.simps[of m])
      then have "digits (n div 10) = digits (m div 10)"
        and c: "''0123456789'' ! (n mod 10) = ''0123456789'' ! (m mod 10)"
        by simp_all
      then have "n div 10 = m div 10" using "1.IH"[OF n] by simp
      moreover have "n mod 10 = m mod 10" using c digit_char_inj[of "n mod 10" "m mod 10"] by simp
      ultimately show ?thesis by (metis div_mult_mod_eq)
    qed
  qed
qed

lemma digits_no_minus: "CHR ''-'' \<notin> set (digits n)"
  using digits_chars[of n] by auto

lemma fmt_d_inj: "fmt_d i = fmt_d j \<Longrightarrow> i = j"
proof -
  assume e: "fmt_d i = fmt_d j"
  have hd_pos: "hd (digits n) \<noteq> CHR ''-''" for n
    using digits_no_minus[of n] digits_nonempty[of n] by (cases "digits n") auto
  show ?thesis
  proof (cases "i < 0")
    case i: True
    show ?thesis
    proof (cases "j < 0")
      case True
      then have "digits (nat (- i)) = digits (nat (- j))" using e i by (simp add: fmt_d_def)
      then have "nat (- i) = nat (- j)" by (rule digits_inj)
      then show ?thesis using i True by simp
    next
      case False
      then have "CHR ''-'' # digits (nat (- i)) = digits (nat j)" using e i by (simp add: fmt_d_def)
      then have "hd (digits (nat j)) = CHR ''-''" by (metis list.sel(1))
      then show ?thesis using hd_pos by blast
    qed
  next
    case i: False
    show ?thesis
    proof (cases "j < 0")
      case True
      then have "digits (nat i) = CHR ''-'' # digits (nat (- j))" using e i by (simp add: fmt_d_def)
      then have "hd (digits (nat i)) = CHR ''-''" by (metis list.sel(1))
      then show ?thesis using hd_pos by blast
    next
      case False
      then have "digits (nat i) = digits (nat j)" using e i by (simp add: fmt_d_def)
      then have "nat i = nat j" by (rule digits_inj)
      then show ?thesis using i False by simp
    qed
  qed
qed

lemma fmt_02d_two_digits:
  assumes "0 \<le> i" "i < 100"
  shows "fmt_02d i = [''0123456789'' ! (nat i div 10), ''0123456789'' ! (nat i mod 10)]"
proof (cases "nat i < 10")
  case True
  then show ?thesis using assms by (simp add: fmt_02d_def digits.simps[of "nat i"])
next
  case False
  have "nat i div 10 < 10" using assms by (simp add: less_mult_imp_div_less)
  then show ?thesis
    using False assms
    by (simp add: fmt_02d_def digits.simps[of "nat i"] digits.simps[of "nat i div 10"])
qed

lemma fmt_02d_inj:
  assumes "0 \<le> i" "i < 100" "0 \<le> j" "j < 100" "fmt_02d i = fmt_02d j"
  shows "i = j"
proof -
  have b: "nat i div 10 < 10" "nat j div 10 < 10" "nat i mod 10 < 10" "nat j mod 10 < 10"
    using assms by (simp_all add: less_mult_imp_div_less)
  have "''0123456789'' ! (nat i div 10) = ''0123456789'' ! (nat j div 10)"
    "''0123456789'' ! (nat i mod 10) = ''0123456789'' ! (nat j mod 10)"
    using assms by (simp_all add: fmt_02d_two_digits)
  then have "nat i div 10 = nat j div 10" "nat i mod 10 = nat j mod 10"
    using b digit_char_inj by blast+
  then have "nat i = nat j" by (metis div_mult_mod_eq)
  then show ?thesis using assms by simp
qed

lemma period_key_inj:
  assumes "fmt_d y @ sep @ fmt_02d w = fmt_d y' @ sep @ fmt_02d w'"
    and "0 \<le> w" "w < 100" "0 \<le> w'" "w' < 100"
  shows "y = y' \<and> w = w'"
proof -
  have l: "length (sep @ fmt_02d w) = length (sep @ fmt_02d w')"
    using assms by (simp add: fmt_02d_two_digits)
  then have "fmt_d y = fmt_d y'" "sep @ fmt_02d w = sep @ fmt_02d w'"
    using assms(1) by (simp_all add: append_eq_append_conv)
  then show ?thesis using fmt_d_inj fmt_02d_inj assms by simp
qed

section \<open>Weeks and months\<close>

lemma Time_dayNumber_midnight: "Time_dayNumber (midnight n loc) = n"
  by (simp add: Time_dayNumber_def Time_abs_midnight)

lemma Time_Date_props:
  assumes "Time_Date t = (y, m, d)"
  shows "dateDays y m d = Time_dayNumber t" "1 \<le> m" "m \<le> 12" "1 \<le> d"
    and "Time_dayNumber t < dateDays y (m + 1) 1"
  using absDate_props[of "Time_dayNumber t" y m d] assms
  by (simp_all add: Time_Date_def Time_dayNumber_def)

lemma getStartOfISOWeek_eq:
  "getStartOfISOWeek t = midnight (7 * (Time_dayNumber t div 7)) (loc_offset t)"
proof -
  define n where "n = Time_dayNumber t"
  obtain y m d where e: "Time_Date t = (y, m, d)" by (metis prod_cases3)
  define w where "w = Time_Weekday t"
  have w: "w = (n + 1) mod 7" by (simp add: w_def n_def Time_Weekday_days Time_dayNumber_def)
  have k: "n - ((if w = 0 then 7 else w) - 1) = 7 * (n div 7)"
    unfolding w by presburger
  have "time_Date y m d 0 0 0 0 (loc_offset t) = midnight n (loc_offset t)"
    using Time_Date_props(1)[OF e] by (simp add: time_Date_midnight n_def)
  then have "getStartOfISOWeek t
      = Time_AddDate (midnight n (loc_offset t)) 0 0 (- ((if w = 0 then 7 else w) - 1))"
    by (simp add: getStartOfISOWeek_def Let_def e w_def)
  also have "\<dots> = midnight (n + - ((if w = 0 then 7 else w) - 1)) (loc_offset t)"
    by (rule Time_AddDate_midnight_days)
  also have "n + - ((if w = 0 then 7 else w) - 1) = 7 * (n div 7)"
    using k by simp
  finally show ?thesis by (simp add: n_def)
qed

lemma weekEnd_eq:
  "weekEnd t = midnight (7 * (Time_dayNumber t div 7) + 6) (loc_offset t)"
  by (simp add: weekEnd_def getStartOfISOWeek_eq Time_AddDate_midnight_days)

lemma Time_ISOWeek_eq:
  "Time_ISOWeek t = (let (year, yday) = absYearDay (7 * (Time_dayNumber t div 7) + 3)
                     in (year, yday div 7 + 1))"
proof -
  define n where "n = Time_dayNumber t"
  define w where "w = Time_Weekday t"
  define d1 where "d1 = (if 4 - w = 4 then - 3 else 4 - w)"
  have w: "w = (n + 1) mod 7" by (simp add: w_def n_def Time_Weekday_days Time_dayNumber_def)
  have "(Time_abs t + d1 * 86400) div 86400 = n + d1"
    by (simp add: n_def Time_dayNumber_def)
  moreover have "n + d1 = 7 * (n div 7) + 3"
    unfolding d1_def w by presburger
  ultimately have arg: "(Time_abs t
      + (if 4 - Time_Weekday t = 4 then - 3 else 4 - Time_Weekday t) * 86400) div 86400
      = 7 * (Time_dayNumber t div 7) + 3"
    by (simp only: d1_def w_def n_def)
  show ?thesis
    by (simp only: Time_ISOWeek_def Let_def arg)
qed

lemma Time_ISOWeek_week_range:
  assumes "Time_ISOWeek t = (y, w)"
  shows "1 \<le> w" "w \<le> 53"
proof -
  obtain y' yd where e: "absYearDay (7 * (Time_dayNumber t div 7) + 3) = (y', yd)" by fastforce
  have w: "w = yd div 7 + 1" using assms e by (simp add: Time_ISOWeek_eq)
  have "0 \<le> yd" "yd < 366" using absYearDay_split(2,3)[OF e] by (auto split: if_splits)
  then show "1 \<le> w" "w \<le> 53" unfolding w by arith+
qed

lemma Time_ISOWeek_inj:
  assumes "Time_ISOWeek t = Time_ISOWeek u"
  shows "Time_dayNumber t div 7 = Time_dayNumber u div 7"
proof -
  define a where "a = Time_dayNumber t div 7"
  define b where "b = Time_dayNumber u div 7"
  obtain y yd where e: "absYearDay (7 * a + 3) = (y, yd)" by fastforce
  obtain y' yd' where e': "absYearDay (7 * b + 3) = (y', yd')" by fastforce
  have "y = y'" "yd div 7 = yd' div 7"
    using assms e e' by (simp_all add: Time_ISOWeek_eq a_def b_def)
  moreover have "7 * a + 3 = daysSinceEpoch y + yd" "7 * b + 3 = daysSinceEpoch y' + yd'"
    using absYearDay_split(1)[OF e] absYearDay_split(1)[OF e'] by simp_all
  ultimately have "7 * a - 7 * b = yd - yd'" "yd div 7 = yd' div 7" by simp_all
  then have "a = b" by arith
  then show ?thesis by (simp add: a_def b_def)
qed

lemma weekKeyOf_inj:
  assumes "weekKeyOf t = weekKeyOf u"
  shows "Time_ISOWeek t = Time_ISOWeek u"
proof -
  obtain y w where t: "Time_ISOWeek t = (y, w)" by fastforce
  obtain y' w' where u: "Time_ISOWeek u = (y', w')" by fastforce
  have "fmt_d y @ ''-W'' @ fmt_02d w = fmt_d y' @ ''-W'' @ fmt_02d w'"
    using assms unfolding weekKeyOf_def t u by (simp only: Let_def prod.case)
  from period_key_inj[OF this] have "y = y' \<and> w = w'"
    using Time_ISOWeek_week_range[OF t] Time_ISOWeek_week_range[OF u] by simp
  then show ?thesis using t u by simp
qed

lemma monthKeyOf_inj:
  assumes "monthKeyOf t = monthKeyOf u" "Time_Date t = (y, m, d)" "Time_Date u = (y', m', d')"
  shows "y = y' \<and> m = m'"
proof -
  have "fmt_d y @ ''-'' @ fmt_02d m = fmt_d y' @ ''-'' @ fmt_02d m'"
    using assms(1) unfolding monthKeyOf_def assms(2,3) by (simp only: Let_def prod.case)
  from period_key_inj[OF this] show ?thesis
    using Time_Date_props(2,3)[OF assms(2)] Time_Date_props(2,3)[OF assms(3)] by simp
qed

lemma monthStart_eq:
  assumes "Time_Date t = (y, m, d)"
  shows "monthStart t = midnight (dateDays y m 1) (loc_offset t)"
  using assms by (simp add: monthStart_def time_Date_midnight)

lemma monthEnd_eq:
  assumes "Time_Date t = (y, m, d)"
  shows "monthEnd t = midnight (dateDays y (m + 1) 1 - 1) (loc_offset t)"
proof -
  note r = Time_Date_props(2,3)[OF assms]
  have "Time_AddDate (midnight (dateDays y m 1) (loc_offset t)) 0 1 (- 1)
      = time_Date y (m + 1) (1 + - 1) 0 0 0 0 (loc_offset t)"
    using absDate_dateDays_first[OF r, of y]
    by (simp add: Time_AddDate_def Time_Date_midnight Time_Clock_midnight)
  also have "\<dots> = midnight (dateDays y (m + 1) (1 + - 1)) (loc_offset t)"
    by (rule time_Date_midnight)
  also have "dateDays y (m + 1) (1 + - 1) = dateDays y (m + 1) 1 - 1"
    by (simp only: dateDays_add)
  finally show ?thesis by (simp add: monthEnd_def monthStart_eq[OF assms])
qed

lemma week_interval:
  assumes "weekKeyOf t = weekKeyOf t0"
  shows "\<exists>ds de. getStartOfISOWeek t0 = midnight ds (loc_offset t0)
     \<and> weekEnd t0 = midnight de (loc_offset t0)
     \<and> ds \<le> Time_dayNumber t \<and> Time_dayNumber t \<le> de"
proof -
  have e: "Time_dayNumber t div 7 = Time_dayNumber t0 div 7"
    using weekKeyOf_inj[OF assms] by (rule Time_ISOWeek_inj)
  have "7 * (Time_dayNumber t0 div 7) \<le> Time_dayNumber t"
    "Time_dayNumber t \<le> 7 * (Time_dayNumber t0 div 7) + 6"
    unfolding e[symmetric] by arith+
  then show ?thesis
    using getStartOfISOWeek_eq[of t0] weekEnd_eq[of t0] by blast
qed

lemma month_interval:
  assumes "monthKeyOf t = monthKeyOf t0"
  shows "\<exists>ds de. monthStart t0 = midnight ds (loc_offset t0)
     \<and> monthEnd t0 = midnight de (loc_offset t0)
     \<and> ds \<le> Time_dayNumber t \<and> Time_dayNumber t \<le> de"
proof -
  obtain y m d where t: "Time_Date t = (y, m, d)" by (metis prod_cases3)
  obtain y0 m0 d0 where t0: "Time_Date t0 = (y0, m0, d0)" by (metis prod_cases3)
  have ym: "y = y0 \<and> m = m0" using monthKeyOf_inj[OF assms t t0] .
  note p = Time_Date_props[OF t]
  have "dateDays y m d = dateDays y m (1 + (d - 1))" by simp
  also have "\<dots> = dateDays y m 1 + (d - 1)" by (rule dateDays_add)
  finally have "dateDays y0 m0 1 \<le> Time_dayNumber t"
    using p(1,4) ym by simp
  moreover have "Time_dayNumber t \<le> dateDays y0 (m0 + 1) 1 - 1"
    using p(5) ym by simp
  ultimately show ?thesis
    using monthStart_eq[OF t0] monthEnd_eq[OF t0] by blast
qed

lemma midnight_instants:
  assumes "ds \<le> Time_dayNumber t" "Time_dayNumber t \<le> de"
  shows "unix_sec (midnight ds (loc_offset t)) \<le> unix_sec t"
    and "unix_sec t < unix_sec (midnight de (loc_offset t)) + 86400"
proof -
  define n where "n = Time_dayNumber t"
  have a: "n * 86400 \<le> Time_abs t" "Time_abs t < n * 86400 + 86400"
    unfolding n_def Time_dayNumber_def by arith+
  have u: "unix_sec t = Time_abs t - unixToYear1 - loc_offset t"
    by (simp add: Time_abs_def)
  have "ds * 86400 \<le> n * 86400" "n * 86400 \<le> de * 86400"
    using assms by (simp_all add: n_def)
  then show "unix_sec (midnight ds (loc_offset t)) \<le> unix_sec t"
    and "unix_sec t < unix_sec (midnight de (loc_offset t)) + 86400"
    using a by (simp_all add: u midnight_def)
qed

lemma bucket_member:
  assumes I: "\<And>t t0. K t = K t0 \<Longrightarrow>
       \<exists>ds de. S t0 = midnight ds (loc_offset t0) \<and> E t0 = midnight de (loc_offset t0)
         \<and> ds \<le> Time_dayNumber t \<and> Time_dayNumber t \<le> de"
    and ok: "bucketsOk K S E st"
    and b: "b \<in> set (periodPRs st)"
    and p: "p \<in> set (snd b)"
  shows "\<not> Time_IsZero (MergedAt p)
     \<and> Time_dayNumber (lookupTime (periodStartDates st) (fst b)) \<le> Time_dayNumber (MergedAt p)
     \<and> Time_dayNumber (MergedAt p) \<le> Time_dayNumber (lookupTime (periodEndDates st) (fst b))
     \<and> (loc_offset (MergedAt p) = loc_offset (lookupTime (periodStartDates st) (fst b)) \<longrightarrow>
          unix_sec (lookupTime (periodStartDates st) (fst b)) \<le> unix_sec (MergedAt p)
          \<and> unix_sec (MergedAt p) < unix_sec (lookupTime (periodEndDates st) (fst b)) + 86400)"
proof -
  have "(fst b, snd b) \<in> set (periodPRs st)" using b by simp
  then have m: "map_of (periodPRs st) (fst b) = Some (snd b)" by (rule bucketsOk_mem[OF ok])
  note d = bucketsOkD[OF ok m]
  define t0 where "t0 = MergedAt (hd (snd b))"
  have "hd (snd b) \<in> set (snd b)" using d(1) by simp
  then have "K (MergedAt p) = K t0" using d(3) p by (simp add: t0_def)
  from I[OF this] obtain ds de where sd: "S t0 = midnight ds (loc_offset t0)"
    "E t0 = midnight de (loc_offset t0)" "ds \<le> Time_dayNumber (MergedAt p)"
    "Time_dayNumber (MergedAt p) \<le> de" by blast
  have s: "lookupTime (periodStartDates st) (fst b) = midnight ds (loc_offset t0)"
    using d(4) sd(1) by (simp add: lookupTime_def t0_def)
  have e: "lookupTime (periodEndDates st) (fst b) = midnight de (loc_offset t0)"
    using d(5) sd(2) by (simp add: lookupTime_def t0_def)
  have "unix_sec (midnight ds (loc_offset t0)) \<le> unix_sec (MergedAt p)
     \<and> unix_sec (MergedAt p) < unix_sec (midnight de (loc_offset t0)) + 86400"
    if "loc_offset (MergedAt p) = loc_offset t0"
    using midnight_instants[OF sd(3,4)] that by simp
  then show ?thesis
    using d(2)[OF p] sd(3,4) by (simp add: s e Time_dayNumber_midnight)
qed

lemma aggregateGroups_origin:
  assumes "a \<in> set (aggregateGroups st)"
  shows "\<exists>b \<in> set (periodPRs st). Period a = fst b
     \<and> StartDate a = lookupTime (periodStartDates st) (fst b)
     \<and> EndDate a = lookupTime (periodEndDates st) (fst b)
     \<and> PRCount a = int (length (snd b))"
proof -
  from assms obtain k ps where kp: "(k, ps) \<in> set (periodPRs st)"
    and a: "a = calculateAggregatedMetrics k (lookupTime (periodStartDates st) k)
                  (lookupTime (periodEndDates st) k) ps"
    by (auto simp: aggregateGroups_def)
  have "Period a = k" "StartDate a = lookupTime (periodStartDates st) k"
    "EndDate a = lookupTime (periodEndDates st) k" "PRCount a = int (length ps)"
    unfolding a by (simp_all add: calculateAggregatedMetrics_def Let_def)
  then show ?thesis using kp by force
qed

text \<open>
  Claim C6: for every date \<open>d\<close>, \<open>getStartOfISOWeek d\<close> is the Monday at 00:00:00, in the
  Location of \<open>d\<close>, of the ISO week containing \<open>d\<close>; two dates of the same ISO week (and
  Location) give the same result; for a Sunday the result is the Monday six days earlier.
\<close>

theorem iso_week_start:
  "Time_Weekday (getStartOfISOWeek d) = 1
   \<and> Time_Clock (getStartOfISOWeek d) = (0, 0, 0)
   \<and> nsec (getStartOfISOWeek d) = 0
   \<and> loc_offset (getStartOfISOWeek d) = loc_offset d
   \<and> Time_ISOWeek (getStartOfISOWeek d) = Time_ISOWeek d
   \<and> Time_dayNumber (getStartOfISOWeek d) \<le> Time_dayNumber d
   \<and> Time_dayNumber d \<le> Time_dayNumber (getStartOfISOWeek d) + 6
   \<and> (Time_ISOWeek d' = Time_ISOWeek d \<longrightarrow>
        Time_abs (getStartOfISOWeek d') = Time_abs (getStartOfISOWeek d))
   \<and> (Time_ISOWeek d' = Time_ISOWeek d \<and> loc_offset d' = loc_offset d \<longrightarrow>
        getStartOfISOWeek d' = getStartOfISOWeek d)
   \<and> (Time_Weekday d = 0 \<longrightarrow>
        Time_dayNumber (getStartOfISOWeek d) = Time_dayNumber d - 6)"
proof -
  define n where "n = Time_dayNumber d"
  have s: "getStartOfISOWeek d = midnight (7 * (n div 7)) (loc_offset d)"
    by (simp add: getStartOfISOWeek_eq n_def)
  have dn: "Time_dayNumber (getStartOfISOWeek d) = 7 * (n div 7)"
    by (simp add: s Time_dayNumber_midnight)
  have monday: "Time_Weekday (getStartOfISOWeek d) = 1"
    by (simp add: Time_Weekday_days s Time_abs_midnight)
  have clock: "Time_Clock (getStartOfISOWeek d) = (0, 0, 0)"
    "nsec (getStartOfISOWeek d) = 0" "loc_offset (getStartOfISOWeek d) = loc_offset d"
    by (simp_all add: s Time_Clock_midnight)
  have week: "Time_ISOWeek (getStartOfISOWeek d) = Time_ISOWeek d"
    by (simp add: Time_ISOWeek_eq dn n_def[symmetric])
  have contains: "Time_dayNumber (getStartOfISOWeek d) \<le> Time_dayNumber d"
    "Time_dayNumber d \<le> Time_dayNumber (getStartOfISOWeek d) + 6"
    unfolding dn n_def[symmetric] by arith+
  have same: "getStartOfISOWeek d' = midnight (7 * (n div 7)) (loc_offset d')"
    if "Time_ISOWeek d' = Time_ISOWeek d"
    using Time_ISOWeek_inj[OF that] by (simp add: getStartOfISOWeek_eq n_def)
  have same_abs: "Time_ISOWeek d' = Time_ISOWeek d \<longrightarrow>
        Time_abs (getStartOfISOWeek d') = Time_abs (getStartOfISOWeek d)"
    using same by (simp add: s Time_abs_midnight)
  have same_loc: "Time_ISOWeek d' = Time_ISOWeek d \<and> loc_offset d' = loc_offset d \<longrightarrow>
        getStartOfISOWeek d' = getStartOfISOWeek d"
    using same by (simp add: s)
  have sunday: "Time_Weekday d = 0 \<longrightarrow>
        Time_dayNumber (getStartOfISOWeek d) = Time_dayNumber d - 6"
  proof
    assume "Time_Weekday d = 0"
    then have "(n + 1) mod 7 = 0" by (simp add: Time_Weekday_days n_def Time_dayNumber_def)
    then have "7 * (n div 7) = n - 6" by presburger
    then show "Time_dayNumber (getStartOfISOWeek d) = Time_dayNumber d - 6"
      by (simp add: dn n_def)
  qed
  show ?thesis
    using monday clock week contains same_abs same_loc sunday by blast
qed

theorem iso_week_start_witness:
  "Time_Weekday (utcTime 1704628800) = 0
   \<and> Time_ISOWeek (utcTime 1704153600) = Time_ISOWeek (utcTime 1704628800)
   \<and> getStartOfISOWeek (utcTime 1704628800) = utcTime 1704067200
   \<and> getStartOfISOWeek (utcTime 1704153600) = utcTime 1704067200
   \<and> Time_dayNumber (utcTime 1704067200) = Time_dayNumber (utcTime 1704628800) - 6
   \<and> Time_Weekday (utcTime 1704067200) = 1"
proof -
  have sun: "Time_Weekday (utcTime 1704628800) = 0"
    by (simp add: Time_Weekday_def Time_abs_def utcTime_def unixToYear1_def)
  have wk: "Time_ISOWeek (utcTime 1704153600) = Time_ISOWeek (utcTime 1704628800)"
    by code_simp
  have loc: "loc_offset (utcTime 1704153600) = loc_offset (utcTime 1704628800)"
    by (simp add: utcTime_def)
  have v: "getStartOfISOWeek (utcTime 1704628800) = utcTime 1704067200"
    by code_simp
  note t = iso_week_start[of "utcTime 1704628800" "utcTime 1704153600"]
  have "getStartOfISOWeek (utcTime 1704153600) = getStartOfISOWeek (utcTime 1704628800)"
    using t wk loc by blast
  moreover have "Time_dayNumber (getStartOfISOWeek (utcTime 1704628800))
      = Time_dayNumber (utcTime 1704628800) - 6"
    using t sun by blast
  moreover have "Time_Weekday (getStartOfISOWeek (utcTime 1704628800)) = 1"
    using t by blast
  ultimately show ?thesis using sun wk v by simp
qed

lemma sample_week:
  "periodPRs (weeklyGroups [mergedPR 1704628800 0]) = [(''2024-W01'', [mergedPR 1704628800 0])]
   \<and> lookupTime (periodStartDates (weeklyGroups [mergedPR 1704628800 0])) ''2024-W01''
       = utcTime 1704067200
   \<and> lookupTime (periodEndDates (weeklyGroups [mergedPR 1704628800 0])) ''2024-W01''
       = utcTime 1704585600
   \<and> map (\<lambda>a. (Period a, StartDate a, EndDate a))
         (CalculateWeeklyAggregatedMetrics [mergedPR 1704628800 0])
       = [(''2024-W01'', utcTime 1704067200, utcTime 1704585600)]
   \<and> Time_Before (utcTime 1704585600) (MergedAt (mergedPR 1704628800 0))"
  by code_simp

lemma sample_month:
  "periodPRs (monthlyGroups [mergedPR 1706702400 0]) = [(''2024-01'', [mergedPR 1706702400 0])]
   \<and> lookupTime (periodStartDates (monthlyGroups [mergedPR 1706702400 0])) ''2024-01''
       = utcTime 1704067200
   \<and> lookupTime (periodEndDates (monthlyGroups [mergedPR 1706702400 0])) ''2024-01''
       = utcTime 1706659200
   \<and> map (\<lambda>a. (Period a, StartDate a, EndDate a))
         (CalculateMonthlyAggregatedMetrics [mergedPR 1706702400 0])
       = [(''2024-01'', utcTime 1704067200, utcTime 1706659200)]
   \<and> Time_Before (utcTime 1706659200) (MergedAt (mergedPR 1706702400 0))"
  by code_simp

text \<open>
  Claim C1, as stated: every bucket contains only PRs whose merge timestamp lies in the
  closed interval from \<open>StartDate\<close> to \<open>EndDate\<close> of the bucket. This fails for a PR
  merged after 00:00:00 on the last day of its period: \<open>EndDate\<close> is the midnight that
  starts the last day. A PR merged on Sunday 2024-01-07 at 12:00 UTC is in the bucket of week
  \<open>2024-W01\<close>, whose \<open>EndDate\<close> is 2024-01-07 at 00:00 UTC; a PR merged on 2024-01-31 at
  12:00 UTC is in the bucket of month \<open>2024-01\<close>, whose \<open>EndDate\<close> is 2024-01-31 at 00:00 UTC.
\<close>

theorem bucket_interval_counterexample:
  "periodPRs (weeklyGroups [mergedPR 1704628800 0]) = [(''2024-W01'', [mergedPR 1704628800 0])]
   \<and> map (\<lambda>a. (Period a, StartDate a, EndDate a))
         (CalculateWeeklyAggregatedMetrics [mergedPR 1704628800 0])
       = [(''2024-W01'', utcTime 1704067200, utcTime 1704585600)]
   \<and> Time_Before (utcTime 1704585600) (MergedAt (mergedPR 1704628800 0))
   \<and> periodPRs (monthlyGroups [mergedPR 1706702400 0]) = [(''2024-01'', [mergedPR 1706702400 0])]
   \<and> map (\<lambda>a. (Period a, StartDate a, EndDate a))
         (CalculateMonthlyAggregatedMetrics [mergedPR 1706702400 0])
       = [(''2024-01'', utcTime 1704067200, utcTime 1706659200)]
   \<and> Time_Before (utcTime 1706659200) (MergedAt (mergedPR 1706702400 0))"
  using sample_week sample_month by blast

lemma weekly_bucket_member:
  assumes "b \<in> set (periodPRs (weeklyGroups prMetrics))" "p \<in> set (snd b)"
  shows "inPeriod (lookupTime (periodStartDates (weeklyGroups prMetrics)) (fst b))
           (lookupTime (periodEndDates (weeklyGroups prMetrics)) (fst b)) p"
  unfolding inPeriod_def
proof (rule bucket_member[where K = weekKeyOf and S = getStartOfISOWeek and E = weekEnd])
  show "\<And>t t0. weekKeyOf t = weekKeyOf t0 \<Longrightarrow>
       \<exists>ds de. getStartOfISOWeek t0 = midnight ds (loc_offset t0)
         \<and> weekEnd t0 = midnight de (loc_offset t0)
         \<and> ds \<le> Time_dayNumber t \<and> Time_dayNumber t \<le> de"
    by (rule week_interval)
  show "bucketsOk weekKeyOf getStartOfISOWeek weekEnd (weeklyGroups prMetrics)"
    by (rule bucketsOk_weekly)
qed (use assms in simp_all)

lemma monthly_bucket_member:
  assumes "b \<in> set (periodPRs (monthlyGroups prMetrics))" "p \<in> set (snd b)"
  shows "inPeriod (lookupTime (periodStartDates (monthlyGroups prMetrics)) (fst b))
           (lookupTime (periodEndDates (monthlyGroups prMetrics)) (fst b)) p"
  unfolding inPeriod_def
proof (rule bucket_member[where K = monthKeyOf and S = monthStart and E = monthEnd])
  show "\<And>t t0. monthKeyOf t = monthKeyOf t0 \<Longrightarrow>
       \<exists>ds de. monthStart t0 = midnight ds (loc_offset t0)
         \<and> monthEnd t0 = midnight de (loc_offset t0)
         \<and> ds \<le> Time_dayNumber t \<and> Time_dayNumber t \<le> de"
    by (rule month_interval)
  show "bucketsOk monthKeyOf monthStart monthEnd (monthlyGroups prMetrics)"
    by (rule bucketsOk_monthly)
qed (use assms in simp_all)

lemma Time_Weekday_midnight: "Time_Weekday (midnight n loc) = (n + 1) mod 7"
  by (simp add: Time_Weekday_days Time_abs_midnight)

lemma Time_ISOWeek_cong:
  assumes "Time_dayNumber t div 7 = Time_dayNumber u div 7"
  shows "Time_ISOWeek t = Time_ISOWeek u"
  by (simp only: Time_ISOWeek_eq assms)

lemma week_period:
  assumes "weekKeyOf t = weekKeyOf t0"
  shows "isWeekOf (getStartOfISOWeek t0) (weekEnd t0) t"
proof -
  define a where "a = Time_dayNumber t0 div 7"
  have e: "Time_dayNumber t div 7 = a"
    using Time_ISOWeek_inj[OF weekKeyOf_inj[OF assms]] by (simp add: a_def)
  have s: "getStartOfISOWeek t0 = midnight (7 * a) (loc_offset t0)"
    by (simp add: getStartOfISOWeek_eq a_def)
  have w: "weekEnd t0 = midnight (7 * a + 6) (loc_offset t0)"
    by (simp add: weekEnd_eq a_def)
  have "Time_ISOWeek (midnight (7 * a) (loc_offset t0)) = Time_ISOWeek t"
    by (rule Time_ISOWeek_cong) (simp add: Time_dayNumber_midnight e)
  moreover have "Time_ISOWeek (midnight (7 * a + 6) (loc_offset t0)) = Time_ISOWeek t"
    by (rule Time_ISOWeek_cong) (simp add: Time_dayNumber_midnight e)
  moreover have "(7 * a + 1) mod 7 = 1" "(7 * a + 6 + 1) mod 7 = 0" by presburger+
  ultimately show ?thesis
    unfolding isWeekOf_def s w
    by (simp add: Time_Weekday_midnight Time_Clock_midnight Time_dayNumber_midnight)
qed

lemma dateDays_next_month:
  assumes "1 \<le> m" "m \<le> 12"
  shows "dateDays y (m + 1) 1
     = daysSinceEpoch y + daysBefore ! nat m + (if isLeap y \<and> 2 \<le> m then 1 else 0)"
proof (cases "m = 12")
  case True
  have "dateDays y 13 1 = daysSinceEpoch (y + 1)"
    by (simp add: dateDays_def Let_def daysBefore_def)
  then show ?thesis using True by (simp add: daysSinceEpoch_Suc daysBefore_def)
next
  case False
  then show ?thesis using assms by (simp add: dateDays_month)
qed

lemma monthDay_last:
  assumes "1 \<le> m" "m \<le> 12"
  shows "monthDay y (daysBefore ! nat m + (if isLeap y \<and> 2 \<le> m then 1 else 0) - 1)
     = (m, daysIn m y)"
proof -
  have "m = 1 \<or> m = 2 \<or> m = 3 \<or> m = 4 \<or> m = 5 \<or> m = 6 \<or> m = 7 \<or> m = 8 \<or> m = 9 \<or> m = 10
     \<or> m = 11 \<or> m = 12" using assms by arith
  then show ?thesis
    by (elim disjE; simp add: monthDay_def daysBefore_def daysIn_def Let_def)
qed

lemma absDate_last:
  assumes "1 \<le> m" "m \<le> 12"
  shows "absDate (dateDays y (m + 1) 1 - 1) = (y, m, daysIn m y)"
proof -
  let ?yd = "daysBefore ! nat m + (if isLeap y \<and> 2 \<le> m then 1 else 0) - 1"
  have "m = 1 \<or> m = 2 \<or> m = 3 \<or> m = 4 \<or> m = 5 \<or> m = 6 \<or> m = 7 \<or> m = 8 \<or> m = 9 \<or> m = 10
     \<or> m = 11 \<or> m = 12" using assms by arith
  then have b: "0 \<le> ?yd" "?yd < (if isLeap y then 366 else 365)"
    by (elim disjE; simp add: daysBefore_def)+
  have e: "dateDays y (m + 1) 1 - 1 = daysSinceEpoch y + ?yd"
    by (simp add: dateDays_next_month[OF assms])
  show ?thesis
    unfolding e absDate_def absYearDay_eq[OF b]
    by (simp only: Let_def prod.case monthDay_last[OF assms])
qed

lemma month_period:
  assumes "monthKeyOf t = monthKeyOf t0"
  shows "isMonthOf (monthStart t0) (monthEnd t0) t"
proof -
  obtain y m d where t: "Time_Date t = (y, m, d)" by (metis prod_cases3)
  obtain y0 m0 d0 where t0: "Time_Date t0 = (y0, m0, d0)" by (metis prod_cases3)
  have ym: "y = y0" "m = m0" using monthKeyOf_inj[OF assms t t0] by simp_all
  note r = Time_Date_props(2,3)[OF t0]
  have "Time_Date (monthStart t0) = (y0, m0, 1)"
    by (simp add: monthStart_eq[OF t0] Time_Date_midnight absDate_dateDays_first[OF r])
  moreover have "Time_Date (monthEnd t0) = (y0, m0, daysIn m0 y0)"
    by (simp add: monthEnd_eq[OF t0] Time_Date_midnight absDate_last[OF r])
  ultimately show ?thesis
    unfolding isMonthOf_def t
    by (simp add: ym monthStart_eq[OF t0] monthEnd_eq[OF t0] Time_Clock_midnight)
qed

lemma bucket_first:
  assumes ok: "bucketsOk K S E st"
    and b: "b \<in> set (periodPRs st)"
  shows "lookupTime (periodStartDates st) (fst b) = S (MergedAt (hd (snd b)))"
    and "lookupTime (periodEndDates st) (fst b) = E (MergedAt (hd (snd b)))"
    and "\<And>p. p \<in> set (snd b) \<Longrightarrow> K (MergedAt p) = K (MergedAt (hd (snd b)))"
    and "\<And>p. p \<in> set (snd b) \<Longrightarrow> fst b = K (MergedAt p)"
proof -
  have "(fst b, snd b) \<in> set (periodPRs st)" using b by simp
  then have m: "map_of (periodPRs st) (fst b) = Some (snd b)" by (rule bucketsOk_mem[OF ok])
  note d = bucketsOkD[OF ok m]
  have h: "hd (snd b) \<in> set (snd b)" using d(1) by simp
  show "lookupTime (periodStartDates st) (fst b) = S (MergedAt (hd (snd b)))"
    using d(4) by (simp add: lookupTime_def)
  show "lookupTime (periodEndDates st) (fst b) = E (MergedAt (hd (snd b)))"
    using d(5) by (simp add: lookupTime_def)
  show "K (MergedAt p) = K (MergedAt (hd (snd b)))" if "p \<in> set (snd b)" for p
    using d(3)[OF that] d(3)[OF h] by simp
  show "fst b = K (MergedAt p)" if "p \<in> set (snd b)" for p
    using d(3)[OF that] by simp
qed

lemma weekly_bucket_period:
  assumes "b \<in> set (periodPRs (weeklyGroups prMetrics))"
  shows "loc_offset (lookupTime (periodStartDates (weeklyGroups prMetrics)) (fst b))
           = loc_offset (MergedAt (hd (snd b)))"
    and "\<And>p. p \<in> set (snd b) \<Longrightarrow>
           isWeekOf (lookupTime (periodStartDates (weeklyGroups prMetrics)) (fst b))
             (lookupTime (periodEndDates (weeklyGroups prMetrics)) (fst b)) (MergedAt p)"
    and "\<And>p. p \<in> set (snd b) \<Longrightarrow> fst b = weekKeyOf (MergedAt p)"
proof -
  note f = bucket_first[OF bucketsOk_weekly assms]
  show "loc_offset (lookupTime (periodStartDates (weeklyGroups prMetrics)) (fst b))
           = loc_offset (MergedAt (hd (snd b)))"
    by (simp add: f(1) getStartOfISOWeek_eq)
  show "isWeekOf (lookupTime (periodStartDates (weeklyGroups prMetrics)) (fst b))
             (lookupTime (periodEndDates (weeklyGroups prMetrics)) (fst b)) (MergedAt p)"
    if "p \<in> set (snd b)" for p
    unfolding f(1) f(2) by (rule week_period[OF f(3)[OF that]])
  show "fst b = weekKeyOf (MergedAt p)" if "p \<in> set (snd b)" for p
    by (rule f(4)[OF that])
qed

lemma monthly_bucket_period:
  assumes "b \<in> set (periodPRs (monthlyGroups prMetrics))"
  shows "loc_offset (lookupTime (periodStartDates (monthlyGroups prMetrics)) (fst b))
           = loc_offset (MergedAt (hd (snd b)))"
    and "\<And>p. p \<in> set (snd b) \<Longrightarrow>
           isMonthOf (lookupTime (periodStartDates (monthlyGroups prMetrics)) (fst b))
             (lookupTime (periodEndDates (monthlyGroups prMetrics)) (fst b)) (MergedAt p)"
    and "\<And>p. p \<in> set (snd b) \<Longrightarrow> fst b = monthKeyOf (MergedAt p)"
proof -
  note f = bucket_first[OF bucketsOk_monthly assms]
  obtain y m d where t: "Time_Date (MergedAt (hd (snd b))) = (y, m, d)" by (metis prod_cases3)
  show "loc_offset (lookupTime (periodStartDates (monthlyGroups prMetrics)) (fst b))
           = loc_offset (MergedAt (hd (snd b)))"
    by (simp add: f(1) monthStart_eq[OF t])
  show "isMonthOf (lookupTime (periodStartDates (monthlyGroups prMetrics)) (fst b))
             (lookupTime (periodEndDates (monthlyGroups prMetrics)) (fst b)) (MergedAt p)"
    if "p \<in> set (snd b)" for p
    unfolding f(1) f(2) by (rule month_period[OF f(3)[OF that]])
  show "fst b = monthKeyOf (MergedAt p)" if "p \<in> set (snd b)" for p
    by (rule f(4)[OF that])
qed

text \<open>
  Claim C1, amended: every bucket of the weekly or monthly aggregation is non-empty and
  contains only PRs with a non-zero merge timestamp. \<open>StartDate\<close> and \<open>EndDate\<close> of the
  bucket are the instants 00:00:00 of the first and of the last day of the period of each
  of these PRs, in the Location of the bucket's first PR: for a weekly bucket the Monday
  and the Sunday of the ISO week of the merge timestamp, for a monthly bucket the first
  and the last day of its year and month; the bucket's key is the period key of each of
  its PRs. The calendar day of each merge timestamp (in its own Location) lies from the
  calendar day of \<open>StartDate\<close> to the calendar day of \<open>EndDate\<close>, both included. As
  instants, Locations being fixed offsets from UTC, a merge timestamp that has the
  Location of \<open>StartDate\<close> is not before \<open>StartDate\<close> and less than 24 hours after
  \<open>EndDate\<close>. Every record returned carries the key, start, end and size of one of the
  buckets.
\<close>

theorem bucket_interval:
  "(\<forall>b \<in> set (periodPRs (weeklyGroups prMetrics)).
      snd b \<noteq> []
      \<and> loc_offset (lookupTime (periodStartDates (weeklyGroups prMetrics)) (fst b))
          = loc_offset (MergedAt (hd (snd b)))
      \<and> (\<forall>p \<in> set (snd b).
            inPeriod (lookupTime (periodStartDates (weeklyGroups prMetrics)) (fst b))
              (lookupTime (periodEndDates (weeklyGroups prMetrics)) (fst b)) p
            \<and> isWeekOf (lookupTime (periodStartDates (weeklyGroups prMetrics)) (fst b))
                (lookupTime (periodEndDates (weeklyGroups prMetrics)) (fst b)) (MergedAt p)
            \<and> fst b = weekKeyOf (MergedAt p)))
   \<and> (\<forall>b \<in> set (periodPRs (monthlyGroups prMetrics)).
      snd b \<noteq> []
      \<and> loc_offset (lookupTime (periodStartDates (monthlyGroups prMetrics)) (fst b))
          = loc_offset (MergedAt (hd (snd b)))
      \<and> (\<forall>p \<in> set (snd b).
            inPeriod (lookupTime (periodStartDates (monthlyGroups prMetrics)) (fst b))
              (lookupTime (periodEndDates (monthlyGroups prMetrics)) (fst b)) p
            \<and> isMonthOf (lookupTime (periodStartDates (monthlyGroups prMetrics)) (fst b))
                (lookupTime (periodEndDates (monthlyGroups prMetrics)) (fst b)) (MergedAt p)
            \<and> fst b = monthKeyOf (MergedAt p)))
   \<and> (\<forall>a \<in> set (CalculateWeeklyAggregatedMetrics prMetrics).
        \<exists>b \<in> set (periodPRs (weeklyGroups prMetrics)). Period a = fst b
          \<and> StartDate a = lookupTime (periodStartDates (weeklyGroups prMetrics)) (fst b)
          \<and> EndDate a = lookupTime (periodEndDates (weeklyGroups prMetrics)) (fst b)
          \<and> PRCount a = int (length (snd b)))
   \<and> (\<forall>a \<in> set (CalculateMonthlyAggregatedMetrics prMetrics).
        \<exists>b \<in> set (periodPRs (monthlyGroups prMetrics)). Period a = fst b
          \<and> StartDate a = lookupTime (periodStartDates (monthlyGroups prMetrics)) (fst b)
          \<and> EndDate a = lookupTime (periodEndDates (monthlyGroups prMetrics)) (fst b)
          \<and> PRCount a = int (length (snd b)))"
proof -
  have wb: "\<forall>b \<in> set (periodPRs (weeklyGroups prMetrics)).
      snd b \<noteq> []
      \<and> loc_offset (lookupTime (periodStartDates (weeklyGroups prMetrics)) (fst b))
          = loc_offset (MergedAt (hd (snd b)))
      \<and> (\<forall>p \<in> set (snd b).
            inPeriod (lookupTime (periodStartDates (weeklyGroups prMetrics)) (fst b))
              (lookupTime (periodEndDates (weeklyGroups prMetrics)) (fst b)) p
            \<and> isWeekOf (lookupTime (periodStartDates (weeklyGroups prMetrics)) (fst b))
                (lookupTime (periodEndDates (weeklyGroups prMetrics)) (fst b)) (MergedAt p)
            \<and> fst b = weekKeyOf (MergedAt p))"
  proof (intro ballI conjI)
    fix b assume b: "b \<in> set (periodPRs (weeklyGroups prMetrics))"
    show "snd b \<noteq> []" by (rule bucket_nonempty[OF bucketsOk_weekly b])
    show "loc_offset (lookupTime (periodStartDates (weeklyGroups prMetrics)) (fst b))
          = loc_offset (MergedAt (hd (snd b)))"
      by (rule weekly_bucket_period(1)[OF b])
    fix p assume p: "p \<in> set (snd b)"
    show "inPeriod (lookupTime (periodStartDates (weeklyGroups prMetrics)) (fst b))
              (lookupTime (periodEndDates (weeklyGroups prMetrics)) (fst b)) p"
      by (rule weekly_bucket_member[OF b p])
    show "isWeekOf (lookupTime (periodStartDates (weeklyGroups prMetrics)) (fst b))
                (lookupTime (periodEndDates (weeklyGroups prMetrics)) (fst b)) (MergedAt p)"
      by (rule weekly_bucket_period(2)[OF b p])
    show "fst b = weekKeyOf (MergedAt p)"
      by (rule weekly_bucket_period(3)[OF b p])
  qed
  have mb: "\<forall>b \<in> set (periodPRs (monthlyGroups prMetrics)).
      snd b \<noteq> []
      \<and> loc_offset (lookupTime (periodStartDates (monthlyGroups prMetrics)) (fst b))
          = loc_offset (MergedAt (hd (snd b)))
      \<and> (\<forall>p \<in> set (snd b).
            inPeriod (lookupTime (periodStartDates (monthlyGroups prMetrics)) (fst b))
              (lookupTime (periodEndDates (monthlyGroups prMetrics)) (fst b)) p
            \<and> isMonthOf (lookupTime (periodStartDates (monthlyGroups prMetrics)) (fst b))
                (lookupTime (periodEndDates (monthlyGroups prMetrics)) (fst b)) (MergedAt p)
            \<and> fst b = monthKeyOf (MergedAt p))"
  proof (intro ballI conjI)
    fix b assume b: "b \<in> set (periodPRs (monthlyGroups prMetrics))"
    show "snd b \<noteq> []" by (rule bucket_nonempty[OF bucketsOk_monthly b])
    show "loc_offset (lookupTime (periodStartDates (monthlyGroups prMetrics)) (fst b))
          = loc_offset (MergedAt (hd (snd b)))"
      by (rule monthly_bucket_period(1)[OF b])
    fix p assume p: "p \<in> set (snd b)"
    show "inPeriod (lookupTime (periodStartDates (monthlyGroups prMetrics)) (fst b))
              (lookupTime (periodEndDates (monthlyGroups prMetrics)) (fst b)) p"
      by (rule monthly_bucket_member[OF b p])
    show "isMonthOf (lookupTime (periodStartDates (monthlyGroups prMetrics)) (fst b))
                (lookupTime (periodEndDates (monthlyGroups prMetrics)) (fst b)) (MergedAt p)"
      by (rule monthly_bucket_period(2)[OF b p])
    show "fst b = monthKeyOf (MergedAt p)"
      by (rule monthly_bucket_period(3)[OF b p])
  qed
  have w: "\<forall>a \<in> set (CalculateWeeklyAggregatedMetrics prMetrics).
        \<exists>b \<in> set (periodPRs (weeklyGroups prMetrics)). Period a = fst b
          \<and> StartDate a = lookupTime (periodStartDates (weeklyGroups prMetrics)) (fst b)
          \<and> EndDate a = lookupTime (periodEndDates (weeklyGroups prMetrics)) (fst b)
          \<and> PRCount a = int (length (snd b))"
    unfolding CalculateWeeklyAggregatedMetrics_def using aggregateGroups_origin by blast
  have m: "\<forall>a \<in> set (CalculateMonthlyAggregatedMetrics prMetrics).
        \<exists>b \<in> set (periodPRs (monthlyGroups prMetrics)). Period a = fst b
          \<and> StartDate a = lookupTime (periodStartDates (monthlyGroups prMetrics)) (fst b)
          \<and> EndDate a = lookupTime (periodEndDates (monthlyGroups prMetrics)) (fst b)
          \<and> PRCount a = int (length (snd b))"
    unfolding CalculateMonthlyAggregatedMetrics_def using aggregateGroups_origin by blast
  show ?thesis
    by (intro conjI wb mb w m)
qed

theorem bucket_interval_witness:
  "\<not> Time_IsZero (MergedAt (mergedPR 1704628800 0))
   \<and> Time_dayNumber (utcTime 1704067200) \<le> Time_dayNumber (MergedAt (mergedPR 1704628800 0))
   \<and> Time_dayNumber (MergedAt (mergedPR 1704628800 0)) \<le> Time_dayNumber (utcTime 1704585600)
   \<and> unix_sec (utcTime 1704067200) \<le> unix_sec (MergedAt (mergedPR 1704628800 0))
   \<and> unix_sec (MergedAt (mergedPR 1704628800 0)) < unix_sec (utcTime 1704585600) + 86400
   \<and> Time_dayNumber (utcTime 1704067200) \<le> Time_dayNumber (MergedAt (mergedPR 1706702400 0))
   \<and> Time_dayNumber (MergedAt (mergedPR 1706702400 0)) \<le> Time_dayNumber (utcTime 1706659200)
   \<and> Time_Weekday (utcTime 1704067200) = 1
   \<and> Time_Clock (utcTime 1704067200) = (0, 0, 0)
   \<and> Time_Weekday (utcTime 1704585600) = 0
   \<and> Time_Clock (utcTime 1704585600) = (0, 0, 0)
   \<and> Time_dayNumber (utcTime 1704585600) = Time_dayNumber (utcTime 1704067200) + 6
   \<and> Time_ISOWeek (utcTime 1704067200) = Time_ISOWeek (MergedAt (mergedPR 1704628800 0))
   \<and> Time_Date (MergedAt (mergedPR 1706702400 0)) = (2024, 1, 31)
   \<and> Time_Date (utcTime 1704067200) = (2024, 1, 1)
   \<and> Time_Date (utcTime 1706659200) = (2024, 1, 31)
   \<and> Time_Clock (utcTime 1706659200) = (0, 0, 0)"
proof -
  let ?w = "mergedPR 1704628800 0"
  let ?m = "mergedPR 1706702400 0"
  have bw: "(''2024-W01'', [?w]) \<in> set (periodPRs (weeklyGroups [?w]))"
    using sample_week by simp
  have bm: "(''2024-01'', [?m]) \<in> set (periodPRs (monthlyGroups [?m]))"
    using sample_month by simp
  have lw: "loc_offset (MergedAt ?w) = loc_offset (utcTime 1704067200)"
    by (simp add: mergedPR_def utcTime_def)
  have "inPeriod (lookupTime (periodStartDates (weeklyGroups [?w])) ''2024-W01'')
          (lookupTime (periodEndDates (weeklyGroups [?w])) ''2024-W01'') ?w
      \<and> isWeekOf (lookupTime (periodStartDates (weeklyGroups [?w])) ''2024-W01'')
          (lookupTime (periodEndDates (weeklyGroups [?w])) ''2024-W01'') (MergedAt ?w)"
    using bucket_interval[of "[?w]"] bw by fastforce
  then have w: "inPeriod (utcTime 1704067200) (utcTime 1704585600) ?w"
    and ww: "isWeekOf (utcTime 1704067200) (utcTime 1704585600) (MergedAt ?w)"
    using sample_week by simp_all
  have "inPeriod (lookupTime (periodStartDates (monthlyGroups [?m])) ''2024-01'')
          (lookupTime (periodEndDates (monthlyGroups [?m])) ''2024-01'') ?m
      \<and> isMonthOf (lookupTime (periodStartDates (monthlyGroups [?m])) ''2024-01'')
          (lookupTime (periodEndDates (monthlyGroups [?m])) ''2024-01'') (MergedAt ?m)"
    using bucket_interval[of "[?m]"] bm by fastforce
  then have m: "inPeriod (utcTime 1704067200) (utcTime 1706659200) ?m"
    and mm: "isMonthOf (utcTime 1704067200) (utcTime 1706659200) (MergedAt ?m)"
    using sample_month by simp_all
  have td: "Time_Date (MergedAt ?m) = (2024, 1, 31)"
    by code_simp
  have di: "daysIn 1 2024 = 31"
    by (simp add: daysIn_def daysBefore_def)
  have mo: "Time_Date (utcTime 1704067200) = (2024, 1, 1)"
    "Time_Date (utcTime 1706659200) = (2024, 1, 31)"
    "Time_Clock (utcTime 1706659200) = (0, 0, 0)"
    using mm unfolding isMonthOf_def td by (simp_all add: di)
  have wk: "Time_Weekday (utcTime 1704067200) = 1"
    "Time_Clock (utcTime 1704067200) = (0, 0, 0)"
    "Time_Weekday (utcTime 1704585600) = 0"
    "Time_Clock (utcTime 1704585600) = (0, 0, 0)"
    "Time_dayNumber (utcTime 1704585600) = Time_dayNumber (utcTime 1704067200) + 6"
    "Time_ISOWeek (utcTime 1704067200) = Time_ISOWeek (MergedAt ?w)"
    using ww unfolding isWeekOf_def by simp_all
  have i: "\<not> Time_IsZero (MergedAt ?w)
   \<and> Time_dayNumber (utcTime 1704067200) \<le> Time_dayNumber (MergedAt ?w)
   \<and> Time_dayNumber (MergedAt ?w) \<le> Time_dayNumber (utcTime 1704585600)
   \<and> unix_sec (utcTime 1704067200) \<le> unix_sec (MergedAt ?w)
   \<and> unix_sec (MergedAt ?w) < unix_sec (utcTime 1704585600) + 86400
   \<and> Time_dayNumber (utcTime 1704067200) \<le> Time_dayNumber (MergedAt ?m)
   \<and> Time_dayNumber (MergedAt ?m) \<le> Time_dayNumber (utcTime 1706659200)"
    using w m lw unfolding inPeriod_def by blast
  show ?thesis
    using i wk mo td by (intro conjI) blast+
qed

end
